theory Spec2Isabelle
  imports Complex_Main
begin

section \<open>Strings as Python reads them\<close>

text \<open>
  A Python \<open>str\<close> is modelled as a \<open>string\<close> whose characters are the code points
  0..255. The character classes below are CPython's tables restricted to that range
  (\<open>str.isspace\<close>, and the \<open>\s\<close>, \<open>\w\<close>, \<open>\d\<close> of a \<open>str\<close> pattern).
  The arithmetic of the metrics is done on the reals; the float enters where the code
  rounds a metric to 4 decimal places.
\<close>

definition code :: "char \<Rightarrow> nat" where
  "code c = of_char c"

definition isspace :: "char \<Rightarrow> bool" where
  "isspace c = (let n = code c in
     (9 \<le> n \<and> n \<le> 13) \<or> (28 \<le> n \<and> n \<le> 32) \<or> n = 133 \<or> n = 160)"

definition isdigit :: "char \<Rightarrow> bool" where
  "isdigit c = (let n = code c in 48 \<le> n \<and> n \<le> 57)"

definition isupper_az :: "char \<Rightarrow> bool" where
  "isupper_az c = (let n = code c in 65 \<le> n \<and> n \<le> 90)"

definition islower_az :: "char \<Rightarrow> bool" where
  "islower_az c = (let n = code c in 97 \<le> n \<and> n \<le> 122)"

definition isword :: "char \<Rightarrow> bool" where
  "isword c = (let n = code c in
     (48 \<le> n \<and> n \<le> 57) \<or> (65 \<le> n \<and> n \<le> 90) \<or> n = 95 \<or> (97 \<le> n \<and> n \<le> 122) \<or>
     n = 170 \<or> n = 178 \<or> n = 179 \<or> n = 181 \<or> n = 185 \<or> n = 186 \<or>
     (188 \<le> n \<and> n \<le> 190) \<or> (192 \<le> n \<and> n \<le> 214) \<or> (216 \<le> n \<and> n \<le> 246) \<or>
     (248 \<le> n \<and> n \<le> 255))"

text \<open>\<open>str.lower()\<close>, one character at a time.\<close>

definition lower_char :: "char \<Rightarrow> char" where
  "lower_char c = (let n = code c in
     if (65 \<le> n \<and> n \<le> 90) \<or> (192 \<le> n \<and> n \<le> 214) \<or> (216 \<le> n \<and> n \<le> 222)
     then char_of (n + 32) else c)"

definition lower :: "string \<Rightarrow> string" where
  "lower s = map lower_char s"

text \<open>\<open>s.split()\<close>: the maximal runs of non-whitespace characters.\<close>

fun split_ws :: "string \<Rightarrow> string \<Rightarrow> string list" where
  "split_ws cur [] = (if cur = [] then [] else [cur])"
| "split_ws cur (c # cs) =
     (if isspace c then (if cur = [] then split_ws [] cs else cur # split_ws [] cs)
      else split_ws (cur @ [c]) cs)"

definition py_split :: "string \<Rightarrow> string list" where
  "py_split s = split_ws [] s"

text \<open>\<open>s.split(sep)\<close> for a one-character separator: every separator cuts, empty pieces stay.\<close>

fun split_on :: "char \<Rightarrow> string \<Rightarrow> string \<Rightarrow> string list" where
  "split_on sep cur [] = [cur]"
| "split_on sep cur (c # cs) =
     (if c = sep then cur # split_on sep [] cs else split_on sep (cur @ [c]) cs)"

definition py_split_on :: "char \<Rightarrow> string \<Rightarrow> string list" where
  "py_split_on sep s = split_on sep [] s"

text \<open>\<open>sep.join(xs)\<close>.\<close>

fun py_join :: "string \<Rightarrow> string list \<Rightarrow> string" where
  "py_join sep [] = []"
| "py_join sep [x] = x"
| "py_join sep (x # y # ys) = x @ sep @ py_join sep (y # ys)"

text \<open>\<open>s.strip()\<close>.\<close>

definition py_strip :: "string \<Rightarrow> string" where
  "py_strip s = rev (dropWhile isspace (rev (dropWhile isspace s)))"

text \<open>\<open>xs[:k]\<close> for a Python int \<open>k\<close>: a negative \<open>k\<close> drops the last \<open>-k\<close> elements.\<close>

definition py_prefix :: "int \<Rightarrow> 'a list \<Rightarrow> 'a list" where
  "py_prefix k xs = (if 0 \<le> k then take (nat k) xs else take (length xs - nat (- k)) xs)"

text \<open>\<open>xs[-n:]\<close> for a positive \<open>n\<close>.\<close>

definition py_last_n :: "nat \<Rightarrow> 'a list \<Rightarrow> 'a list" where
  "py_last_n n xs = drop (length xs - n) xs"

section \<open>The regular expressions of the source\<close>

text \<open>
  Every pattern of the two modules is a sequence of single-character classes, each
  taken once, or under \<open>*\<close>, \<open>+\<close> or \<open>{m,n}\<close>, and of the anchors \<open>\b\<close>, \<open>^\<close>, \<open>$\<close>; the groups
  only delimit the whole match. The matcher is the backtracking one of \<open>re\<close>: a
  quantifier takes as many characters as it can and gives them back one at a time.
\<close>

datatype cclass =
    Ch char
  | Space
  | Word
  | Digit
  | Dot
  | Upper
  | Lower
  | OneOf string
  | NoneOf string

fun cmatch :: "cclass \<Rightarrow> char \<Rightarrow> bool" where
  "cmatch (Ch a) c = (c = a)"
| "cmatch Space c = isspace c"
| "cmatch Word c = isword c"
| "cmatch Digit c = isdigit c"
| "cmatch Dot c = (c \<noteq> CHR 0x0A)"
| "cmatch Upper c = isupper_az c"
| "cmatch Lower c = islower_az c"
| "cmatch (OneOf s) c = (c \<in> set s)"
| "cmatch (NoneOf s) c = (c \<notin> set s)"

datatype item =
    One cclass
  | Star cclass
  | Plus cclass
  | Rep nat nat cclass
  | WordB
  | Bol
  | Eol

type_synonym regex = "item list"

text \<open>A literal text as a pattern.\<close>

definition lit :: "string \<Rightarrow> regex" where
  "lit s = map (\<lambda>c. One (Ch c)) s"

text \<open>\<open>\b\<close>: exactly one of the two neighbours is a word character.\<close>

definition at_boundary :: "char option \<Rightarrow> string \<Rightarrow> bool" where
  "at_boundary p s =
     ((case p of None \<Rightarrow> False | Some c \<Rightarrow> isword c) \<noteq>
      (case s of [] \<Rightarrow> False | c # _ \<Rightarrow> isword c))"

text \<open>
  \<open>match_here ml r p s\<close>: match \<open>r\<close> at the start of \<open>s\<close>, where \<open>p\<close> is the character
  before \<open>s\<close> and \<open>ml\<close> is the flag \<open>re.MULTILINE\<close>; the result is the rest of \<open>s\<close> after
  the match that \<open>re\<close> finds, or \<open>None\<close>.
\<close>

fun match_here :: "bool \<Rightarrow> regex \<Rightarrow> char option \<Rightarrow> string \<Rightarrow> string option" where
  "match_here ml [] p s = Some s"
| "match_here ml (One c # r) p [] = None"
| "match_here ml (One c # r) p (x # xs) =
     (if cmatch c x then match_here ml r (Some x) xs else None)"
| "match_here ml (Star c # r) p [] = match_here ml r p []"
| "match_here ml (Star c # r) p (x # xs) =
     (if cmatch c x
      then (case match_here ml (Star c # r) (Some x) xs of
              Some t \<Rightarrow> Some t
            | None \<Rightarrow> match_here ml r p (x # xs))
      else match_here ml r p (x # xs))"
| "match_here ml (Plus c # r) p [] = None"
| "match_here ml (Plus c # r) p (x # xs) =
     (if cmatch c x then match_here ml (Star c # r) (Some x) xs else None)"
| "match_here ml (Rep lo hi c # r) p [] = (if lo = 0 then match_here ml r p [] else None)"
| "match_here ml (Rep lo hi c # r) p (x # xs) =
     (if 0 < lo
      then (if cmatch c x then match_here ml (Rep (lo - 1) (hi - 1) c # r) (Some x) xs else None)
      else if 0 < hi \<and> cmatch c x
      then (case match_here ml (Rep 0 (hi - 1) c # r) (Some x) xs of
              Some t \<Rightarrow> Some t
            | None \<Rightarrow> match_here ml r p (x # xs))
      else match_here ml r p (x # xs))"
| "match_here ml (WordB # r) p s = (if at_boundary p s then match_here ml r p s else None)"
| "match_here ml (Bol # r) p s =
     (if p = None \<or> (ml \<and> p = Some (CHR 0x0A)) then match_here ml r p s else None)"
| "match_here ml (Eol # r) p s =
     (if s = [] \<or> s = [CHR 0x0A] \<or> (ml \<and> take 1 s = [CHR 0x0A]) then match_here ml r p s
      else None)"

text \<open>\<open>re.match(r, s)\<close> (no flags) as a truth value.\<close>

definition re_match :: "regex \<Rightarrow> string \<Rightarrow> bool" where
  "re_match r s = (match_here False r None s \<noteq> None)"

text \<open>\<open>re.search(r, s, re.MULTILINE)\<close> as a truth value: a match at some position.\<close>

fun search_from :: "regex \<Rightarrow> char option \<Rightarrow> string \<Rightarrow> bool" where
  "search_from r p [] = (match_here True r p [] \<noteq> None)"
| "search_from r p (x # xs) =
     (if match_here True r p (x # xs) \<noteq> None then True else search_from r (Some x) xs)"

definition re_search :: "regex \<Rightarrow> string \<Rightarrow> bool" where
  "re_search r s = search_from r None s"

text \<open>
  \<open>re.finditer(r, s, flags)\<close>: the matches from left to right, none overlapping, each
  with its start offset. \<open>skip\<close> counts the characters of the last match still to pass.
  No pattern of the source matches the empty string, so an empty match is not a match here.
\<close>

fun finditer_from :: "bool \<Rightarrow> regex \<Rightarrow> nat \<Rightarrow> nat \<Rightarrow> char option \<Rightarrow> string \<Rightarrow> (nat \<times> string) list" where
  "finditer_from ml r skip pos p [] = []"
| "finditer_from ml r skip pos p (x # xs) =
     (if 0 < skip then finditer_from ml r (skip - 1) (pos + 1) (Some x) xs
      else (case match_here ml r p (x # xs) of
              None \<Rightarrow> finditer_from ml r 0 (pos + 1) (Some x) xs
            | Some rest \<Rightarrow>
                (let n = length (x # xs) - length rest in
                 if n = 0 then finditer_from ml r 0 (pos + 1) (Some x) xs
                 else (pos, take n (x # xs)) # finditer_from ml r (n - 1) (pos + 1) (Some x) xs)))"

definition re_finditer :: "bool \<Rightarrow> regex \<Rightarrow> string \<Rightarrow> (nat \<times> string) list" where
  "re_finditer ml r s = finditer_from ml r 0 0 None s"

text \<open>\<open>re.findall(r, s)\<close> for a pattern without groups.\<close>

definition re_findall :: "regex \<Rightarrow> string \<Rightarrow> string list" where
  "re_findall r s = map snd (re_finditer False r s)"

text \<open>\<open>re.split(r, s)\<close>: the pieces between the matches.\<close>

fun split_from :: "regex \<Rightarrow> nat \<Rightarrow> string \<Rightarrow> char option \<Rightarrow> string \<Rightarrow> string list" where
  "split_from r skip cur p [] = [cur]"
| "split_from r skip cur p (x # xs) =
     (if 0 < skip then split_from r (skip - 1) cur (Some x) xs
      else (case match_here False r p (x # xs) of
              None \<Rightarrow> split_from r 0 (cur @ [x]) (Some x) xs
            | Some rest \<Rightarrow>
                (let n = length (x # xs) - length rest in
                 if n = 0 then split_from r 0 (cur @ [x]) (Some x) xs
                 else cur # split_from r (n - 1) [] (Some x) xs)))"

definition re_split :: "regex \<Rightarrow> string \<Rightarrow> string list" where
  "re_split r s = split_from r 0 [] None s"

section \<open>The evaluator: \<open>EvaluationUtils\<close>\<close>

text \<open>
  A document is a dict with string values; \<open>doc.get("id")\<close> is \<open>d ''id''\<close>, which is
  \<open>None\<close> when the key is absent.
\<close>

type_synonym doc = "string \<rightharpoonup> string"

definition get_id :: "doc \<Rightarrow> string option" where
  "get_id d = d ''id''"

definition get_content :: "doc \<Rightarrow> string" where
  "get_content d = (case d ''content'' of None \<Rightarrow> [] | Some c \<Rightarrow> c)"

text \<open>
  The nearest integer, a tie to the even one.
\<close>

definition round_half_even :: "real \<Rightarrow> int" where
  "round_half_even y =
     (let f = \<lfloor>y\<rfloor>; d = y - of_int f in
      if d < 1 / 2 then f else if 1 / 2 < d then f + 1 else if even f then f else f + 1)"

text \<open>
  A Python float is an IEEE binary64. \<open>binary64 x\<close> is the float nearest to the real
  \<open>x\<close>, a tie to the even significand: 53 significant bits at the binary exponent of
  \<open>x\<close>, and multiples of \<open>2^-1074\<close> below \<open>2^-1022\<close>. It is the float that a single
  division of two integers yields, as in \<open>relevant_retrieved / len(retrieved_ids)\<close> and
  \<open>1.0 / (i + 1)\<close>. Overflow to infinity is not modelled; no metric comes near it.
\<close>

definition pow2 :: "int \<Rightarrow> real" where
  "pow2 k = (if 0 \<le> k then 2 ^ nat k else 1 / 2 ^ nat (- k))"

definition binary64 :: "real \<Rightarrow> real" where
  "binary64 x =
     (if x = 0 then 0
      else (let e = max \<lfloor>log 2 \<bar>x\<bar>\<rfloor> (- 1022)
            in of_int (round_half_even (x * pow2 (52 - e))) * pow2 (e - 52)))"

text \<open>
  \<open>round(x, 4)\<close>: Python rounds the exact value of the float it holds to the nearest
  multiple of \<open>1/10000\<close>, a tie to the even one. The metrics are computed on the reals
  and \<open>round\<close> is given the float nearest to the result, so a quotient such as \<open>1/160\<close>,
  a decimal tie that no float represents, is rounded from the float above it, as the
  code does. The decimal result stands for the float nearest to it.
\<close>

definition py_round4 :: "real \<Rightarrow> real" where
  "py_round4 x = of_int (round_half_even (binary64 x * 10000)) / 10000"

record retrieval_metrics =
  precision :: real
  recall :: real
  f1_score :: real
  mrr :: real
  ndcg :: real

text \<open>\<open>_calculate_mrr\<close>: the loop over \<open>enumerate(retrieved_docs)\<close>, \<open>i\<close> the running index.\<close>

fun mrr_loop :: "nat \<Rightarrow> doc list \<Rightarrow> string option set \<Rightarrow> real" where
  "mrr_loop i [] relevant_ids = 0"
| "mrr_loop i (d # ds) relevant_ids =
     (if get_id d \<in> relevant_ids then 1 / (real i + 1) else mrr_loop (Suc i) ds relevant_ids)"

definition calculate_mrr :: "doc list \<Rightarrow> string option set \<Rightarrow> real" where
  "calculate_mrr retrieved_docs relevant_ids = mrr_loop 0 retrieved_docs relevant_ids"

text \<open>\<open>_calculate_ndcg\<close>: the two accumulating loops, then the guarded quotient.\<close>

fun dcg_loop :: "nat \<Rightarrow> doc list \<Rightarrow> string option set \<Rightarrow> real \<Rightarrow> real" where
  "dcg_loop i [] relevant_ids dcg = dcg"
| "dcg_loop i (d # ds) relevant_ids dcg =
     dcg_loop (Suc i) ds relevant_ids
       (dcg + (if get_id d \<in> relevant_ids then 1 else 0) / log 2 (real i + 2))"

fun idcg_loop :: "nat \<Rightarrow> nat \<Rightarrow> real \<Rightarrow> real" where
  "idcg_loop i 0 idcg = idcg"
| "idcg_loop i (Suc n) idcg = idcg_loop (Suc i) n (idcg + 1 / log 2 (real i + 2))"

definition calculate_ndcg :: "doc list \<Rightarrow> string option set \<Rightarrow> int \<Rightarrow> real" where
  "calculate_ndcg retrieved_docs relevant_ids k =
     (let dcg = dcg_loop 0 (py_prefix k retrieved_docs) relevant_ids 0;
          num_relevant = min (int (card relevant_ids)) k;
          idcg = idcg_loop 0 (nat num_relevant) 0
      in if 0 < idcg then dcg / idcg else 0)"

definition calculate_retrieval_metrics ::
    "string \<Rightarrow> doc list \<Rightarrow> doc list \<Rightarrow> int \<Rightarrow> retrieval_metrics" where
  "calculate_retrieval_metrics query retrieved_docs relevant_docs k =
     (if retrieved_docs = []
      then \<lparr>precision = 0, recall = 0, f1_score = 0, mrr = 0, ndcg = 0\<rparr>
      else
        (let relevant_ids = get_id ` set relevant_docs;
             retrieved_ids = map get_id (py_prefix k retrieved_docs);
             relevant_retrieved = card (set retrieved_ids \<inter> relevant_ids);
             p = (if retrieved_ids \<noteq> [] then real relevant_retrieved / real (length retrieved_ids)
                  else 0);
             r = (if relevant_ids \<noteq> {} then real relevant_retrieved / real (card relevant_ids)
                  else 0);
             f1 = (if 0 < p + r then 2 * (p * r) / (p + r) else 0);
             m = calculate_mrr retrieved_docs relevant_ids;
             n = calculate_ndcg retrieved_docs relevant_ids k
         in \<lparr>precision = py_round4 p, recall = py_round4 r, f1_score = py_round4 f1,
             mrr = py_round4 m, ndcg = py_round4 n\<rparr>))"

subsection \<open>Generation metrics\<close>

text \<open>\<open>_calculate_bleu_score\<close>: the inner loop with its \<open>break\<close>, the outer counting loop.\<close>

fun token_found :: "string \<Rightarrow> string list \<Rightarrow> bool" where
  "token_found t [] = False"
| "token_found t (r # rs) = (if t = r then True else token_found t rs)"

fun count_overlaps :: "string list \<Rightarrow> string list \<Rightarrow> nat \<Rightarrow> nat" where
  "count_overlaps [] ref_tokens overlaps = overlaps"
| "count_overlaps (g # gs) ref_tokens overlaps =
     count_overlaps gs ref_tokens (if token_found g ref_tokens then overlaps + 1 else overlaps)"

definition calculate_bleu_score :: "string \<Rightarrow> string \<Rightarrow> real" where
  "calculate_bleu_score generated reference =
     (let gen_tokens = py_split (lower generated);
          ref_tokens = py_split (lower reference)
      in if gen_tokens = [] then 0
         else
           (let overlaps = count_overlaps gen_tokens ref_tokens 0;
                p = real overlaps / real (length gen_tokens);
                bp = (if length ref_tokens \<le> length gen_tokens then 1
                      else exp (1 - real (length ref_tokens) / real (length gen_tokens)))
            in bp * p))"

definition calculate_rouge_score :: "string \<Rightarrow> string \<Rightarrow> real" where
  "calculate_rouge_score generated reference =
     (let gen_tokens = set (py_split (lower generated));
          ref_tokens = set (py_split (lower reference))
      in if ref_tokens = {} then 0
         else real (card (gen_tokens \<inter> ref_tokens)) / real (card ref_tokens))"

definition stop_words :: "string list" where
  "stop_words =
     [''the'', ''a'', ''an'', ''and'', ''or'', ''but'', ''in'', ''on'', ''at'', ''to'', ''for'',
      ''of'', ''with'', ''by'', ''is'', ''are'', ''was'', ''were'', ''be'', ''been'', ''being'',
      ''have'', ''has'', ''had'', ''do'', ''does'', ''did'', ''will'', ''would'', ''could'',
      ''should'', ''may'', ''might'', ''can'', ''this'', ''that'', ''these'', ''those'']"

definition extract_key_terms :: "string \<Rightarrow> string list" where
  "extract_key_terms text =
     filter (\<lambda>w. 2 < length w \<and> w \<notin> set stop_words)
       (re_findall [WordB, Plus Word, WordB] (lower text))"

definition calculate_answer_relevance :: "string \<Rightarrow> doc list \<Rightarrow> real" where
  "calculate_answer_relevance answer context =
     (if context = [] then 0
      else
        (let context_terms = set (extract_key_terms (py_join '' '' (map get_content context)));
             answer_terms = set (extract_key_terms answer)
         in if context_terms = {} then 0
            else min (real (card (answer_terms \<inter> context_terms)) / real (card context_terms)) 1))"

text \<open>
  \<open>_extract_facts\<close>: the matches of the four patterns, without duplicates. The order of
  \<open>list(set(facts))\<close> is not fixed by Python; nothing below reads it.
\<close>

definition fact_patterns :: "regex list" where
  "fact_patterns =
     [[Plus Digit],
      [WordB, Rep 4 4 Digit, WordB],
      [WordB, One Upper, Plus Lower, One (Ch CHR '' ''), One Upper, Plus Lower, WordB],
      [WordB, One Upper, Plus Lower, One (Ch CHR '' ''), One Upper, Plus Lower,
       One (Ch CHR '' ''), One Upper, Plus Lower, WordB]]"

definition extract_facts :: "string \<Rightarrow> string list" where
  "extract_facts text = remdups (concat (map (\<lambda>pat. re_findall pat text) fact_patterns))"

text \<open>\<open>_is_contradictory\<close>: the loop over the context facts; both exits return \<open>False\<close>.\<close>

fun is_contradictory :: "string \<Rightarrow> string list \<Rightarrow> bool" where
  "is_contradictory a_fact [] = False"
| "is_contradictory a_fact (context_fact # context_facts) =
     (if lower a_fact \<noteq> lower context_fact \<and> 3 < length (lower a_fact) then False
      else is_contradictory a_fact context_facts)"

fun count_contradictions :: "string list \<Rightarrow> string list \<Rightarrow> nat \<Rightarrow> nat" where
  "count_contradictions [] context_facts contradictions = contradictions"
| "count_contradictions (a_fact # facts) context_facts contradictions =
     count_contradictions facts context_facts
       (if is_contradictory a_fact context_facts then contradictions + 1 else contradictions)"

definition calculate_factual_consistency :: "string \<Rightarrow> doc list \<Rightarrow> real" where
  "calculate_factual_consistency answer context =
     (if context = [] then 0
      else
        (let context_facts = extract_facts (py_join '' '' (map get_content context));
             answer_facts = extract_facts answer
         in if context_facts = [] then 1
            else
              (let contradictions = count_contradictions answer_facts context_facts 0;
                   consistency = (if answer_facts \<noteq> []
                                  then 1 - real contradictions / real (length answer_facts)
                                  else 1)
               in max consistency 0)))"

definition key_information_patterns :: "regex list" where
  "key_information_patterns =
     [[WordB, One Upper, Plus Lower, One (Ch CHR '' ''), One Upper, Plus Lower, WordB],
      [WordB, Plus Digit, One (OneOf ''.,''), Plus Digit, WordB],
      [WordB, One Upper, Plus Upper, WordB]]"

definition extract_key_information :: "string \<Rightarrow> string set" where
  "extract_key_information text =
     set (concat (map (\<lambda>pat. re_findall pat text) key_information_patterns))"

definition calculate_answer_completeness :: "string \<Rightarrow> string \<Rightarrow> real" where
  "calculate_answer_completeness generated reference =
     (if reference = [] then 1
      else
        (let ref_info = extract_key_information reference;
             gen_info = extract_key_information generated
         in if ref_info = {} then 1
            else real (card (ref_info \<inter> gen_info)) / real (card ref_info)))"

record generation_metrics =
  bleu_score :: real
  rouge_score :: real
  relevance_score :: real
  consistency_score :: real
  completeness_score :: real

definition calculate_generation_metrics ::
    "string \<Rightarrow> string \<Rightarrow> doc list \<Rightarrow> generation_metrics" where
  "calculate_generation_metrics generated_answer reference_answer context =
     \<lparr>bleu_score = py_round4 (calculate_bleu_score generated_answer reference_answer),
      rouge_score = py_round4 (calculate_rouge_score generated_answer reference_answer),
      relevance_score = py_round4 (calculate_answer_relevance generated_answer context),
      consistency_score = py_round4 (calculate_factual_consistency generated_answer context),
      completeness_score =
        py_round4 (calculate_answer_completeness generated_answer reference_answer)\<rparr>"

subsection \<open>Notions used to state the properties\<close>

text \<open>
  The rank of the first relevant hit, from the words of the specification: the 1-based
  position of the first document of the list whose id is in the relevant set, if any.
\<close>

definition first_relevant_rank :: "doc list \<Rightarrow> string option set \<Rightarrow> nat option" where
  "first_relevant_rank ds relevant_ids =
     (if \<exists>d\<in>set ds. get_id d \<in> relevant_ids
      then Some (Suc (length (takeWhile (\<lambda>d. get_id d \<notin> relevant_ids) ds)))
      else None)"

text \<open>The binary gain of a document and the discount of a 0-based position.\<close>

definition gain :: "string option set \<Rightarrow> doc \<Rightarrow> real" where
  "gain R d = (if get_id d \<in> R then 1 else 0)"

definition discount :: "nat \<Rightarrow> real" where
  "discount n = 1 / log 2 (real n + 2)"

section \<open>The chunker: \<open>ChunkingAgent\<close>\<close>

text \<open>
  A chunk is a \<open>ChunkedDocument\<close>. Its \<open>id\<close>, \<open>created_at\<close> and \<open>updated_at\<close> come from
  \<open>uuid4\<close> and the clock and are left out, and with them the metadata entry
  \<open>original_chunk_id\<close> that copies the \<open>id\<close>. The input dict is read with its keys
  present and typed as the code expects them: \<open>document_id\<close> and \<open>content\<close> are strings.
\<close>

datatype mval = MStr string | MInt int | MBool bool | MNone

type_synonym metadata = "string \<rightharpoonup> mval"

record chunk =
  document_id :: string
  content :: string
  chunk_index :: nat
  chunk_type :: string
  language :: "string option"
  metadata :: metadata
  start_line :: "nat option"
  end_line :: "nat option"
  token_count :: nat

record config =
  chunk_size :: int
  chunk_overlap :: int
  chunking_strategy :: string
  min_chunk_size :: int
  max_chunk_size :: int
  language_detection :: bool

text \<open>The defaults of \<open>ChunkingAgentConfig\<close>.\<close>

definition default_config :: config where
  "default_config =
     \<lparr>chunk_size = 1000, chunk_overlap = 200, chunking_strategy = ''hybrid'',
      min_chunk_size = 100, max_chunk_size = 2000, language_detection = True\<rparr>"

record input_data =
  in_document_id :: string
  in_content :: string
  in_source_type :: string
  in_metadata :: metadata

text \<open>\<open>len(s.split())\<close>.\<close>

definition token_len :: "string \<Rightarrow> nat" where
  "token_len s = length (py_split s)"

text \<open>\<open>s.count('\n')\<close>.\<close>

definition count_newlines :: "string \<Rightarrow> nat" where
  "count_newlines s = length (filter (\<lambda>c. c = CHR 0x0A) s)"

subsection \<open>Content type and language\<close>

text \<open>A loop over patterns that returns at the first one \<open>re.search\<close> finds.\<close>

fun any_search :: "regex list \<Rightarrow> string \<Rightarrow> bool" where
  "any_search [] s = False"
| "any_search (pat # pats) s = (if re_search pat s then True else any_search pats s)"

fun any_match :: "regex list \<Rightarrow> string \<Rightarrow> bool" where
  "any_match [] s = False"
| "any_match (pat # pats) s = (if re_match pat s then True else any_match pats s)"

definition kw :: "string \<Rightarrow> regex" where
  "kw w = lit w @ [Plus Space, Plus Word]"

definition code_patterns :: "regex list" where
  "code_patterns =
     [lit ''def'' @ [Plus Space, Plus Word, Star Space, One (Ch CHR ''('')],
      kw ''class'',
      kw ''import'',
      lit ''from'' @ [Plus Space, Plus Word, Plus Space] @ lit ''import'',
      kw ''function'',
      kw ''const'',
      kw ''let'',
      kw ''var'',
      lit ''public'' @ [Plus Space] @ lit ''class'',
      kw ''private'',
      lit ''#include'' @ [Star Space, One (Ch CHR ''<'')],
      kw ''package'']"

definition is_code_content :: "string \<Rightarrow> bool" where
  "is_code_content s = any_search code_patterns s"

definition markdown_patterns :: "regex list" where
  "markdown_patterns =
     [[Bol, One (Ch CHR ''#''), Plus Space],
      [Bol, One (Ch CHR ''*''), One (Ch CHR ''*''), Star Dot, One (Ch CHR ''*''),
       One (Ch CHR ''*''), Eol],
      [Bol, One (Ch CHR ''*''), Star Dot, One (Ch CHR ''*''), Eol],
      Bol # lit ''```'',
      [Bol, One (Ch CHR ''[''), Star Dot, One (Ch CHR '']''), One (Ch CHR ''(''), Star Dot,
       One (Ch CHR '')'')],
      [Bol, One (Ch CHR ''>''), Plus Space],
      [Bol, One (Ch CHR ''|''), Plus Space, Star Dot, Plus Space, One (Ch CHR ''|'')]]"

fun count_markdown_lines :: "string list \<Rightarrow> nat \<Rightarrow> nat" where
  "count_markdown_lines [] markdown_lines = markdown_lines"
| "count_markdown_lines (line # lines) markdown_lines =
     count_markdown_lines lines
       (if any_match markdown_patterns line then markdown_lines + 1 else markdown_lines)"

definition is_markdown_content :: "string \<Rightarrow> bool" where
  "is_markdown_content s =
     (let lines = py_split_on (CHR 0x0A) s;
          markdown_lines = count_markdown_lines lines 0
      in real (length lines) * (1 / 10) < real markdown_lines)"

definition detect_content_type :: "string \<Rightarrow> string \<Rightarrow> string" where
  "detect_content_type s source_type =
     (if source_type \<in> set [''github'', ''branch'']
      then (if is_code_content s then ''code''
            else if is_markdown_content s then ''markdown''
            else ''text'')
      else if source_type = ''web''
      then (if is_markdown_content s then ''markdown'' else ''text'')
      else ''text'')"

text \<open>The dict \<open>language_patterns\<close>, in the order of its declaration.\<close>

definition language_patterns :: "(string \<times> regex list) list" where
  "language_patterns =
     [(''python'',
        [lit ''def'' @ [Plus Space, Plus Word, Star Space, One (Ch CHR ''('')],
         kw ''import'',
         lit ''from'' @ [Plus Space, Plus Word, Plus Space] @ lit ''import'',
         kw ''class'' @ [Star Dot, One (Ch CHR '':'')],
         lit ''if'' @ [Plus Space] @ lit ''__name__'' @ [Star Space] @ lit ''=='' @
           [Star Space, One (OneOf [CHR 0x27, CHR 0x22])] @ lit ''__main__'' @
           [One (OneOf [CHR 0x27, CHR 0x22])]]),
      (''javascript'',
        [kw ''function'', kw ''const'', kw ''let'', kw ''var'',
         lit ''console.log'',
         lit ''export'' @ [Plus Space] @ lit ''default'']),
      (''typescript'',
        [kw ''interface'', kw ''type'',
         [One (Ch CHR '':''), Star Space, Plus Word, One (Ch CHR ''[''), One (Ch CHR '']'')],
         lit ''Promise<'' @ [Plus Word, One (Ch CHR ''>'')]]),
      (''java'',
        [lit ''public'' @ [Plus Space] @ lit ''class'',
         kw ''private'',
         lit ''public'' @ [Plus Space] @ lit ''static'' @ [Plus Space] @ lit ''void'' @
           [Plus Space] @ lit ''main'',
         lit ''import'' @ [Plus Space] @ lit ''java.'']),
      (''cpp'',
        [lit ''#include'' @ [Star Space, One (Ch CHR ''<'')],
         lit ''std::'',
         kw ''namespace'',
         kw ''class'' @ [Star Space, One (Ch CHR ''{'')]]),
      (''c'',
        [lit ''#include'' @ [Star Space, One (Ch CHR ''<'')],
         lit ''int'' @ [Plus Space] @ lit ''main'' @ [Star Space, One (Ch CHR ''('')],
         lit ''printf'' @ [Star Space, One (Ch CHR ''('')],
         kw ''struct'']),
      (''go'',
        [kw ''package'', kw ''func'',
         lit ''import'' @ [Star Space, One (Ch CHR ''('')],
         lit ''fmt.'']),
      (''rust'',
        [kw ''fn'', kw ''use'',
         lit ''pub'' @ [Plus Space] @ lit ''fn'',
         lit ''let'' @ [Plus Space] @ lit ''mut'' @ [Plus Space, Plus Word]])]"

text \<open>The loop over \<open>language_patterns.items()\<close> with its inner loop over the patterns.\<close>

fun first_language :: "(string \<times> regex list) list \<Rightarrow> string \<Rightarrow> string option" where
  "first_language [] s = None"
| "first_language ((lang, pats) # rest) s =
     (if any_search pats s then Some lang else first_language rest s)"

definition detect_language :: "string \<Rightarrow> string \<Rightarrow> string option" where
  "detect_language s content_type =
     (if content_type \<noteq> ''code'' then None else first_language language_patterns s)"

subsection \<open>Line-based chunking\<close>

definition line_chunk :: "string \<Rightarrow> string option \<Rightarrow> metadata \<Rightarrow> string list \<Rightarrow> nat \<Rightarrow> nat \<Rightarrow> chunk" where
  "line_chunk doc_id lang md current_chunk current_tokens idx =
     \<lparr>document_id = doc_id,
      content = py_join [CHR 0x0A] current_chunk,
      chunk_index = idx,
      chunk_type = ''code_lines'',
      language = lang,
      metadata = md(''boundary_type'' \<mapsto> MStr ''line''),
      start_line = None,
      end_line = None,
      token_count = current_tokens\<rparr>"

text \<open>
  The loop of \<open>_chunk_by_lines\<close> with the final chunk added after it; the state is
  \<open>current_chunk\<close>, \<open>current_tokens\<close> and \<open>chunk_index\<close>.
\<close>

fun lines_loop :: "config \<Rightarrow> string \<Rightarrow> string option \<Rightarrow> metadata \<Rightarrow> string list \<Rightarrow>
    string list \<Rightarrow> nat \<Rightarrow> nat \<Rightarrow> chunk list" where
  "lines_loop cfg doc_id lang md [] current_chunk current_tokens idx =
     (if current_chunk \<noteq> [] then [line_chunk doc_id lang md current_chunk current_tokens idx]
      else [])"
| "lines_loop cfg doc_id lang md (line # lines) current_chunk current_tokens idx =
     (let line_tokens = token_len line in
      if chunk_size cfg < int (current_tokens + line_tokens) \<and> current_chunk \<noteq> []
      then line_chunk doc_id lang md current_chunk current_tokens idx #
           (let overlap_lines = (if 5 \<le> length current_chunk then py_last_n 5 current_chunk
                                 else current_chunk);
                new_chunk = overlap_lines @ [line]
            in lines_loop cfg doc_id lang md lines new_chunk
                 (sum_list (map token_len new_chunk)) (idx + 1))
      else lines_loop cfg doc_id lang md lines (current_chunk @ [line])
             (current_tokens + line_tokens) idx)"

definition chunk_by_lines :: "config \<Rightarrow> string \<Rightarrow> string \<Rightarrow> string option \<Rightarrow> metadata \<Rightarrow> chunk list" where
  "chunk_by_lines cfg s doc_id lang md =
     lines_loop cfg doc_id lang md (py_split_on (CHR 0x0A) s) [] 0 0"

subsection \<open>Python code\<close>

text \<open>
  \<open>ast.parse\<close> is the standard library's parser and is a parameter of the model: for a
  source text it gives the function, async function and class definitions in the order
  of \<open>ast.walk\<close>, each with its name, its line span and whether it has a docstring; or a
  \<open>SyntaxError\<close>; or another exception, with its message.
\<close>

datatype node_kind = FunctionDef | AsyncFunctionDef | ClassDef

record ast_node =
  node_kind :: node_kind
  node_name :: string
  lineno :: nat
  end_lineno :: nat
  has_docstring :: bool

datatype ast_result = Parsed "ast_node list" | SyntaxError | OtherError string

type_synonym parser = "string \<Rightarrow> ast_result"

fun kind_name :: "node_kind \<Rightarrow> string" where
  "kind_name FunctionDef = ''FunctionDef''"
| "kind_name AsyncFunctionDef = ''AsyncFunctionDef''"
| "kind_name ClassDef = ''ClassDef''"

definition node_chunk :: "string \<Rightarrow> string \<Rightarrow> metadata \<Rightarrow> ast_node \<Rightarrow> nat \<Rightarrow> chunk" where
  "node_chunk s doc_id md node idx =
     (let start = lineno node;
          end = end_lineno node;
          lines = py_split_on (CHR 0x0A) s;
          node_content = py_join [CHR 0x0A] (drop (start - 1) (take end lines))
      in \<lparr>document_id = doc_id,
          content = node_content,
          chunk_index = idx,
          chunk_type = (if node_kind node = ClassDef then ''code_class'' else ''code_function''),
          language = Some ''python'',
          metadata = md(''node_type'' \<mapsto> MStr (kind_name (node_kind node)),
                        ''node_name'' \<mapsto> MStr (node_name node),
                        ''start_line'' \<mapsto> MInt (int start),
                        ''end_line'' \<mapsto> MInt (int end),
                        ''has_docstring'' \<mapsto> MBool (has_docstring node)),
          start_line = Some start,
          end_line = Some end,
          token_count = token_len node_content\<rparr>)"

fun nodes_loop :: "string \<Rightarrow> string \<Rightarrow> metadata \<Rightarrow> ast_node list \<Rightarrow> nat \<Rightarrow> chunk list" where
  "nodes_loop s doc_id md [] idx = []"
| "nodes_loop s doc_id md (node # nodes) idx =
     node_chunk s doc_id md node idx # nodes_loop s doc_id md nodes (idx + 1)"

definition chunk_python_code :: "parser \<Rightarrow> config \<Rightarrow> string \<Rightarrow> string \<Rightarrow> metadata \<Rightarrow> string + chunk list" where
  "chunk_python_code parse cfg s doc_id md =
     (case parse s of
        Parsed nodes \<Rightarrow>
          (let chunks = nodes_loop s doc_id md nodes 0
           in if chunks = [] then Inr (chunk_by_lines cfg s doc_id (Some ''python'') md)
              else Inr chunks)
      | SyntaxError \<Rightarrow> Inr (chunk_by_lines cfg s doc_id (Some ''python'') md)
      | OtherError msg \<Rightarrow> Inl msg)"

subsection \<open>Other code\<close>

definition braces :: regex where
  "braces = [One (Ch CHR ''{''), Star (NoneOf ''}''), One (Ch CHR ''}'')]"

definition params :: regex where
  "params = [One (Ch CHR ''(''), Star (NoneOf '')''), One (Ch CHR '')'')]"

definition js_patterns :: "regex list" where
  "js_patterns =
     [kw ''function'' @ [Star Space] @ params @ [Star Space] @ braces,
      kw ''const'' @ [Star Space, One (Ch CHR ''=''), Star Space] @ params @
        [Star Space] @ lit ''=>'' @ [Star Space] @ braces,
      kw ''class'' @ [Star Space] @ braces]"

definition java_patterns :: "regex list" where
  "java_patterns =
     [lit ''public'' @ [Plus Space] @ kw ''class'' @ [Star Space] @ braces,
      kw ''private'' @ [Plus Space, Plus Word, Star Space] @ params @ [Star Space] @ braces,
      kw ''public'' @ [Plus Space, Plus Word, Star Space] @ params @ [Star Space] @ braces]"

definition generic_patterns :: "regex list" where
  "generic_patterns =
     [kw ''def'' @ [Star Space] @ params @
        [Star Space, One (Ch CHR '':''), Star (NoneOf '':''), One (Ch CHR '':'')],
      kw ''class'' @ [Star Space, One (Ch CHR '':''), Star (NoneOf '':''), One (Ch CHR '':'')],
      kw ''function'' @ [Star Space] @ params @ [Star Space] @ braces]"

definition match_chunk :: "string \<Rightarrow> string \<Rightarrow> string option \<Rightarrow> metadata \<Rightarrow> (nat \<times> string) \<Rightarrow> nat \<Rightarrow> chunk" where
  "match_chunk s doc_id lang md m idx =
     (let chunk_content = snd m;
          start = count_newlines (take (fst m) s) + 1;
          end = count_newlines (take (fst m + length (snd m)) s) + 1
      in \<lparr>document_id = doc_id,
          content = chunk_content,
          chunk_index = idx,
          chunk_type = ''code_function'',
          language = lang,
          metadata = md(''pattern_matched'' \<mapsto> MBool True,
                        ''start_line'' \<mapsto> MInt (int start),
                        ''end_line'' \<mapsto> MInt (int end)),
          start_line = Some start,
          end_line = Some end,
          token_count = token_len chunk_content\<rparr>)"

fun matches_loop :: "string \<Rightarrow> string \<Rightarrow> string option \<Rightarrow> metadata \<Rightarrow> (nat \<times> string) list \<Rightarrow> nat \<Rightarrow> chunk list" where
  "matches_loop s doc_id lang md [] idx = []"
| "matches_loop s doc_id lang md (m # ms) idx =
     match_chunk s doc_id lang md m idx # matches_loop s doc_id lang md ms (idx + 1)"

definition chunk_generic_code :: "config \<Rightarrow> string \<Rightarrow> string \<Rightarrow> string option \<Rightarrow> metadata \<Rightarrow> chunk list" where
  "chunk_generic_code cfg s doc_id lang md =
     (let patterns = (if lang \<in> set [Some ''javascript'', Some ''typescript''] then js_patterns
                      else if lang \<in> set [Some ''java'', Some ''cpp'', Some ''c''] then java_patterns
                      else generic_patterns);
          all_matches = concat (map (\<lambda>pat. re_finditer True pat s) patterns);
          sorted_matches = sort_key fst all_matches;
          chunks = matches_loop s doc_id lang md sorted_matches 0
      in if chunks = [] then chunk_by_lines cfg s doc_id lang md else chunks)"

definition chunk_code :: "parser \<Rightarrow> config \<Rightarrow> string \<Rightarrow> string \<Rightarrow> string option \<Rightarrow> metadata \<Rightarrow> string + chunk list" where
  "chunk_code parse cfg s doc_id lang md =
     (if lang = Some ''python'' then chunk_python_code parse cfg s doc_id md
      else Inr (chunk_generic_code cfg s doc_id lang md))"

subsection \<open>Markdown\<close>

definition header_pattern :: regex where
  "header_pattern = [Bol, Rep 1 6 (Ch CHR ''#''), Plus Space, Plus Dot, Eol]"

text \<open>\<open>len(current_header.split('#')[0]) if current_header else 0\<close>.\<close>

definition header_level :: "string option \<Rightarrow> nat" where
  "header_level current_header =
     (case current_header of
        None \<Rightarrow> 0
      | Some h \<Rightarrow> (if h = [] then 0
                   else (case py_split_on (CHR ''#'') h of [] \<Rightarrow> 0 | piece # _ \<Rightarrow> length piece)))"

definition markdown_chunk :: "string \<Rightarrow> metadata \<Rightarrow> string list \<Rightarrow> string option \<Rightarrow> nat \<Rightarrow> chunk" where
  "markdown_chunk doc_id md current_chunk current_header idx =
     (let chunk_content = py_join [CHR 0x0A] current_chunk
      in \<lparr>document_id = doc_id,
          content = chunk_content,
          chunk_index = idx,
          chunk_type = ''markdown_section'',
          language = None,
          metadata = md(''header'' \<mapsto> (case current_header of None \<Rightarrow> MNone | Some h \<Rightarrow> MStr h),
                        ''header_level'' \<mapsto> MInt (int (header_level current_header))),
          start_line = None,
          end_line = None,
          token_count = token_len chunk_content\<rparr>)"

fun markdown_loop :: "string \<Rightarrow> metadata \<Rightarrow> string list \<Rightarrow> string list \<Rightarrow> string option \<Rightarrow> nat \<Rightarrow> chunk list" where
  "markdown_loop doc_id md [] current_chunk current_header idx =
     (if current_chunk \<noteq> [] then [markdown_chunk doc_id md current_chunk current_header idx]
      else [])"
| "markdown_loop doc_id md (line # lines) current_chunk current_header idx =
     (if re_match header_pattern line
      then (if current_chunk \<noteq> []
            then markdown_chunk doc_id md current_chunk current_header idx #
                 markdown_loop doc_id md lines [line] (Some line) (idx + 1)
            else markdown_loop doc_id md lines [line] (Some line) idx)
      else markdown_loop doc_id md lines (current_chunk @ [line]) current_header idx)"

definition chunk_markdown :: "string \<Rightarrow> string \<Rightarrow> metadata \<Rightarrow> chunk list" where
  "chunk_markdown s doc_id md = markdown_loop doc_id md (py_split_on (CHR 0x0A) s) [] None 0"

subsection \<open>Text\<close>

definition split_sentences :: "string \<Rightarrow> string list" where
  "split_sentences text =
     map py_strip (filter (\<lambda>s. py_strip s \<noteq> []) (re_split [Plus (OneOf ''.!?'')] text))"

definition sentence_chunk :: "string \<Rightarrow> metadata \<Rightarrow> string list \<Rightarrow> nat \<Rightarrow> nat \<Rightarrow> chunk" where
  "sentence_chunk doc_id md current_chunk current_tokens idx =
     \<lparr>document_id = doc_id,
      content = py_join '' '' current_chunk,
      chunk_index = idx,
      chunk_type = ''text_semantic'',
      language = None,
      metadata = md(''boundary_type'' \<mapsto> MStr ''sentence''),
      start_line = None,
      end_line = None,
      token_count = current_tokens\<rparr>"

fun sentences_loop :: "config \<Rightarrow> string \<Rightarrow> metadata \<Rightarrow> string list \<Rightarrow> string list \<Rightarrow> nat \<Rightarrow> nat \<Rightarrow> chunk list" where
  "sentences_loop cfg doc_id md [] current_chunk current_tokens idx =
     (if current_chunk \<noteq> [] then [sentence_chunk doc_id md current_chunk current_tokens idx]
      else [])"
| "sentences_loop cfg doc_id md (sentence # sentences) current_chunk current_tokens idx =
     (let sentence_tokens = token_len sentence in
      if chunk_size cfg < int (current_tokens + sentence_tokens) \<and> current_chunk \<noteq> []
      then sentence_chunk doc_id md current_chunk current_tokens idx #
           (let overlap_sentences = (if 2 \<le> length current_chunk then py_last_n 2 current_chunk
                                     else current_chunk);
                new_chunk = overlap_sentences @ [sentence]
            in sentences_loop cfg doc_id md sentences new_chunk
                 (sum_list (map token_len new_chunk)) (idx + 1))
      else sentences_loop cfg doc_id md sentences (current_chunk @ [sentence])
             (current_tokens + sentence_tokens) idx)"

definition paragraph_chunk :: "string \<Rightarrow> metadata \<Rightarrow> string \<Rightarrow> nat \<Rightarrow> chunk" where
  "paragraph_chunk doc_id md paragraph idx =
     \<lparr>document_id = doc_id,
      content = paragraph,
      chunk_index = idx,
      chunk_type = ''text_paragraph'',
      language = None,
      metadata = md(''boundary_type'' \<mapsto> MStr ''paragraph''),
      start_line = None,
      end_line = None,
      token_count = token_len paragraph\<rparr>"

fun paragraphs_loop :: "config \<Rightarrow> string \<Rightarrow> metadata \<Rightarrow> string list \<Rightarrow> nat \<Rightarrow> chunk list" where
  "paragraphs_loop cfg doc_id md [] idx = []"
| "paragraphs_loop cfg doc_id md (raw # paragraphs) idx =
     (let paragraph = py_strip raw in
      if paragraph = [] then paragraphs_loop cfg doc_id md paragraphs idx
      else if chunk_size cfg < int (token_len paragraph)
      then (let new_chunks = sentences_loop cfg doc_id md (split_sentences paragraph) [] 0 idx
            in new_chunks @ paragraphs_loop cfg doc_id md paragraphs (idx + length new_chunks))
      else paragraph_chunk doc_id md paragraph idx #
           paragraphs_loop cfg doc_id md paragraphs (idx + 1))"

definition chunk_text :: "config \<Rightarrow> string \<Rightarrow> string \<Rightarrow> metadata \<Rightarrow> chunk list" where
  "chunk_text cfg s doc_id md =
     paragraphs_loop cfg doc_id md
       (re_split [One (Ch (CHR 0x0A)), Star Space, One (Ch (CHR 0x0A))] s) 0"

definition chunk_hybrid :: "parser \<Rightarrow> config \<Rightarrow> string \<Rightarrow> string \<Rightarrow> string \<Rightarrow> string option \<Rightarrow> metadata \<Rightarrow> string + chunk list" where
  "chunk_hybrid parse cfg s doc_id content_type lang md =
     (if content_type = ''code'' then chunk_code parse cfg s doc_id lang md
      else if content_type = ''markdown'' then Inr (chunk_markdown s doc_id md)
      else Inr (chunk_text cfg s doc_id md))"

subsection \<open>Validation\<close>

text \<open>
  The slices \<open>words[i:i + n]\<close> for \<open>i\<close> in \<open>range(0, len(words), n)\<close>, \<open>n\<close> positive.
\<close>

function windows :: "nat \<Rightarrow> 'a list \<Rightarrow> 'a list list" where
  "windows n xs = (if n = 0 \<or> xs = [] then [] else take n xs # windows n (drop n xs))"
  by pat_completeness auto
termination
  by (relation "measure (\<lambda>(n, xs). length xs)") auto

declare windows.simps [simp del]

definition sub_chunk :: "chunk \<Rightarrow> string list \<Rightarrow> chunk" where
  "sub_chunk c ws =
     (let sub_content = py_join '' '' ws
      in \<lparr>document_id = document_id c,
          content = sub_content,
          chunk_index = chunk_index c,
          chunk_type = chunk_type c @ ''_sub'',
          language = language c,
          metadata = (metadata c)(''is_sub_chunk'' \<mapsto> MBool True),
          start_line = start_line c,
          end_line = end_line c,
          token_count = token_len sub_content\<rparr>)"

text \<open>
  \<open>_split_large_chunk\<close>: \<open>range\<close> raises \<open>ValueError\<close> for a step of zero and is empty for
  a negative step.
\<close>

definition split_large_chunk :: "config \<Rightarrow> chunk \<Rightarrow> string + chunk list" where
  "split_large_chunk cfg c =
     (let words = py_split (content c) in
      if chunk_size cfg = 0 then Inl ''range() arg 3 must not be zero''
      else if chunk_size cfg < 0 then Inr []
      else Inr (map (sub_chunk c) (windows (nat (chunk_size cfg)) words)))"

fun validate_chunks :: "config \<Rightarrow> chunk list \<Rightarrow> string + chunk list" where
  "validate_chunks cfg [] = Inr []"
| "validate_chunks cfg (c # cs) =
     (if int (token_len (content c)) < min_chunk_size cfg then validate_chunks cfg cs
      else if max_chunk_size cfg < int (token_len (content c))
      then (case split_large_chunk cfg c of
              Inl e \<Rightarrow> Inl e
            | Inr sub_chunks \<Rightarrow>
                (case validate_chunks cfg cs of
                   Inl e \<Rightarrow> Inl e
                 | Inr valid_chunks \<Rightarrow> Inr (sub_chunks @ valid_chunks)))
      else (case validate_chunks cfg cs of
              Inl e \<Rightarrow> Inl e
            | Inr valid_chunks \<Rightarrow> Inr (c # valid_chunks)))"

subsection \<open>\<open>process\<close>\<close>

record result_data =
  chunks :: "chunk list"
  total_chunks :: nat
  content_type :: string
  detected_language :: "string option"
  used_strategy :: string
  used_chunk_size :: int
  used_chunk_overlap :: int

text \<open>
  An \<open>AgentResult\<close>; the empty \<open>data\<close> dict of a failure is \<open>None\<close>, and the constant
  \<open>processing_time\<close> is left out.
\<close>

record agent_result =
  success :: bool
  data :: "result_data option"
  error_message :: "string option"

definition failure :: "string \<Rightarrow> agent_result" where
  "failure msg = \<lparr>success = False, data = None, error_message = Some msg\<rparr>"

definition process :: "parser \<Rightarrow> config \<Rightarrow> input_data \<Rightarrow> agent_result" where
  "process parse cfg inp =
     (let doc_id = in_document_id inp;
          s = in_content inp;
          source_type = in_source_type inp;
          md = in_metadata inp
      in if s = [] then failure ''No content provided for chunking''
         else
           (let ctype = detect_content_type s source_type;
                lang = (if language_detection cfg then detect_language s ctype else None);
                strategy_chunks =
                  (if ctype = ''code'' then chunk_code parse cfg s doc_id lang md
                   else if ctype = ''markdown'' then Inr (chunk_markdown s doc_id md)
                   else if ctype = ''text'' then Inr (chunk_text cfg s doc_id md)
                   else chunk_hybrid parse cfg s doc_id ctype lang md)
            in case strategy_chunks of
                 Inl e \<Rightarrow> failure e
               | Inr cs \<Rightarrow>
                   (case validate_chunks cfg cs of
                      Inl e \<Rightarrow> failure e
                    | Inr valid_chunks \<Rightarrow>
                        \<lparr>success = True,
                         data = Some \<lparr>chunks = valid_chunks,
                                      total_chunks = length valid_chunks,
                                      content_type = ctype,
                                      detected_language = lang,
                                      used_strategy = chunking_strategy cfg,
                                      used_chunk_size = chunk_size cfg,
                                      used_chunk_overlap = chunk_overlap cfg\<rparr>,
                         error_message = None\<rparr>)))"

subsection \<open>Notions used to state the properties\<close>

text \<open>
  The score of a language, from the words of the specification: the number of its
  patterns that match somewhere in the content.
\<close>

definition language_score :: "regex list \<Rightarrow> string \<Rightarrow> nat" where
  "language_score pats s = length (filter (\<lambda>pat. re_search pat s) pats)"

text \<open>The patterns declared for a language.\<close>

definition patterns_of :: "string \<Rightarrow> regex list" where
  "patterns_of lang = (case map_of language_patterns lang of None \<Rightarrow> [] | Some pats \<Rightarrow> pats)"

text \<open>A chunk whose \<open>token_count\<close> is the number of whitespace-separated tokens of its content.\<close>

definition counted :: "chunk \<Rightarrow> bool" where
  "counted c = (token_count c = token_len (content c))"

text \<open>A token: a non-empty string without whitespace, as \<open>str.split()\<close> yields them.\<close>

definition is_token :: "string \<Rightarrow> bool" where
  "is_token w = (w \<noteq> [] \<and> (\<forall>c\<in>set w. \<not> isspace c))"

text \<open>The chunks of a result: \<open>data["chunks"]\<close>, and none when there is no data.\<close>

definition result_chunks :: "agent_result \<Rightarrow> chunk list" where
  "result_chunks r = (case data r of None \<Rightarrow> [] | Some d \<Rightarrow> chunks d)"

text \<open>
  A small configuration and a text of two paragraphs, the first of five words and the
  second of two, used to run \<open>process\<close> on a concrete input.
\<close>

definition small_config :: config where
  "small_config =
     \<lparr>chunk_size = 2, chunk_overlap = 0, chunking_strategy = ''hybrid'',
      min_chunk_size = 1, max_chunk_size = 3, language_detection = True\<rparr>"

definition two_paragraphs :: input_data where
  "two_paragraphs =
     \<lparr>in_document_id = ''doc'',
      in_content = ''a b c d e'' @ [CHR 0x0A, CHR 0x0A] @ ''f g'',
      in_source_type = ''text'',
      in_metadata = Map.empty\<rparr>"

section \<open>Properties of the evaluator\<close>

subsection \<open>The float nearest to a real, and \<open>round\<close>\<close>

text \<open>
  Within a binade the float nearest to \<open>x\<close> is found by rounding \<open>x\<close>, scaled to 53 bits,
  to an integer. The values of \<open>round(x, 4)\<close> used below follow: 0, 1 and 1/2 are floats
  and stay; 1/3 gives 0.3333; the decimal ties 1/160 and 1/32 give 0.0063 (the float lies
  above the tie) and 0.0312 (the float is the tie, and 312 is even).
\<close>

lemma round_half_even_of_int: "round_half_even (of_int n) = n"
  by (simp add: round_half_even_def)

lemma pow2_powr: "pow2 k = 2 powr (of_int k)"
  by (simp add: pow2_def powr_real_of_int field_simps)

lemma pow2_pos: "0 < pow2 k"
  by (simp add: pow2_def)

lemma floor_log2:
  assumes "pow2 k \<le> x" and "x < pow2 (k + 1)"
  shows "\<lfloor>log 2 x\<rfloor> = k"
proof -
  have pos: "0 < x" using assms(1) pow2_pos [of k] by linarith
  have "of_int k \<le> log 2 x"
    using assms(1) pos by (simp add: pow2_powr le_log_iff)
  moreover have "log 2 x < of_int k + 1"
    using assms(2) pos by (simp add: pow2_powr log_less_iff)
  ultimately show ?thesis by (simp add: floor_eq_iff)
qed

lemma binary64_in_binade:
  assumes "pow2 k \<le> \<bar>x\<bar>" and "\<bar>x\<bar> < pow2 (k + 1)" and "- 1022 \<le> k"
  shows "binary64 x = of_int (round_half_even (x * pow2 (52 - k))) * pow2 (k - 52)"
proof -
  have "\<lfloor>log 2 \<bar>x\<bar>\<rfloor> = k" using assms(1,2) by (rule floor_log2)
  moreover have "x \<noteq> 0" using assms(1) pow2_pos [of k] by auto
  ultimately show ?thesis using assms(3) by (simp add: binary64_def Let_def max_def)
qed

lemma binary64_one: "binary64 1 = 1"
proof -
  have "binary64 1 = of_int (round_half_even (1 * pow2 (52 - 0))) * pow2 (0 - 52)"
    by (rule binary64_in_binade) (simp_all add: pow2_def)
  also have "1 * pow2 (52 - 0) = of_int (2 ^ 52)" by (simp add: pow2_def)
  finally show ?thesis by (simp only: round_half_even_of_int) (simp add: pow2_def)
qed

lemma binary64_half: "binary64 (1 / 2) = 1 / 2"
proof -
  have "binary64 (1 / 2) = of_int (round_half_even ((1 / 2) * pow2 (52 - (- 1)))) * pow2 (- 1 - 52)"
    by (rule binary64_in_binade) (simp_all add: pow2_def)
  also have "(1 / 2) * pow2 (52 - (- 1)) = of_int (2 ^ 52)" by (simp add: pow2_def)
  finally show ?thesis by (simp only: round_half_even_of_int) (simp add: pow2_def)
qed

lemma py_round4_one: "py_round4 1 = 1"
  by (simp add: py_round4_def binary64_one round_half_even_def)

lemma py_round4_zero: "py_round4 0 = 0"
  by (simp add: py_round4_def binary64_def round_half_even_def)

lemma py_round4_half: "py_round4 (1 / 2) = 1 / 2"
  by (simp add: py_round4_def binary64_half round_half_even_def)

lemma binary64_third: "binary64 (1 / 3) = 6004799503160661 / 18014398509481984"
proof -
  have "binary64 (1 / 3) = of_int (round_half_even ((1 / 3) * pow2 (52 - (- 2)))) * pow2 (- 2 - 52)"
    by (rule binary64_in_binade) (simp_all add: pow2_def)
  also have "round_half_even ((1 / 3) * pow2 (52 - (- 2))) = 6004799503160661"
    by (simp add: pow2_def round_half_even_def Let_def)
  finally show ?thesis by (simp add: pow2_def)
qed

lemma py_round4_third: "py_round4 (1 / 3) = 3333 / 10000"
  by (simp add: py_round4_def binary64_third round_half_even_def Let_def)

lemma binary64_160: "binary64 (1 / 160) = 7205759403792794 / 1152921504606846976"
proof -
  have "binary64 (1 / 160) = of_int (round_half_even ((1 / 160) * pow2 (52 - (- 8)))) * pow2 (- 8 - 52)"
    by (rule binary64_in_binade) (simp_all add: pow2_def)
  also have "round_half_even ((1 / 160) * pow2 (52 - (- 8))) = 7205759403792794"
    by (simp add: pow2_def round_half_even_def Let_def)
  finally show ?thesis by (simp add: pow2_def)
qed

lemma py_round4_160: "py_round4 (1 / 160) = 63 / 10000"
  by (simp add: py_round4_def binary64_160 round_half_even_def Let_def)

lemma binary64_32: "binary64 (1 / 32) = 1 / 32"
proof -
  have "binary64 (1 / 32) = of_int (round_half_even ((1 / 32) * pow2 (52 - (- 5)))) * pow2 (- 5 - 52)"
    by (rule binary64_in_binade) (simp_all add: pow2_def)
  also have "(1 / 32) * pow2 (52 - (- 5)) = of_int (2 ^ 52)" by (simp add: pow2_def)
  finally show ?thesis by (simp only: round_half_even_of_int) (simp add: pow2_def)
qed

lemma py_round4_32: "py_round4 (1 / 32) = 312 / 10000"
  by (simp add: py_round4_def binary64_32 round_half_even_def Let_def)

lemma round_half_even_ge_floor: "\<lfloor>y\<rfloor> \<le> round_half_even y"
  by (simp add: round_half_even_def Let_def)

lemma round_half_even_lower: "of_int n \<le> y \<Longrightarrow> n \<le> round_half_even y"
proof -
  assume "of_int n \<le> y"
  then have "n \<le> \<lfloor>y\<rfloor>" by (simp add: le_floor_iff)
  also have "\<dots> \<le> round_half_even y" by (rule round_half_even_ge_floor)
  finally show ?thesis .
qed

lemma binary64_lower_1_2:
  assumes "3 / 2 \<le> x" and "x < 2"
  shows "3 / 2 \<le> binary64 x"
proof -
  have b: "binary64 x = of_int (round_half_even (x * pow2 (52 - 0))) * pow2 (0 - 52)"
    using assms by (intro binary64_in_binade) (simp_all add: pow2_def)
  have "of_int (3 * 2 ^ 51) \<le> x * pow2 (52 - 0)"
    using assms(1) by (simp add: pow2_def)
  then have "3 * 2 ^ 51 \<le> round_half_even (x * pow2 (52 - 0))"
    by (rule round_half_even_lower)
  then have "(of_int (3 * 2 ^ 51) :: real) \<le> of_int (round_half_even (x * pow2 (52 - 0)))"
    by (simp only: of_int_le_iff)
  then show ?thesis unfolding b by (simp add: pow2_def)
qed

lemma py_round4_lower_15: 
  assumes "3 / 2 \<le> x" and "x < 2"
  shows "3 / 2 \<le> py_round4 x"
proof -
  have "3 / 2 \<le> binary64 x" using assms by (rule binary64_lower_1_2)
  then have "of_int 15000 \<le> binary64 x * 10000" by simp
  then have "15000 \<le> round_half_even (binary64 x * 10000)" by (rule round_half_even_lower)
  then have "(of_int 15000 :: real) \<le> of_int (round_half_even (binary64 x * 10000))"
    by (simp only: of_int_le_iff)
  then show ?thesis by (simp add: py_round4_def)
qed

subsection \<open>Generation metrics\<close>

lemma is_contradictory_never: "\<not> is_contradictory a_fact context_facts"
  by (induction context_facts) simp_all

lemma count_contradictions_unchanged: "count_contradictions facts context_facts n = n"
  by (induction facts arbitrary: n) (simp_all add: is_contradictory_never)

lemma factual_consistency_one:
  "context \<noteq> [] \<Longrightarrow> calculate_factual_consistency answer context = 1"
  by (simp add: calculate_factual_consistency_def Let_def count_contradictions_unchanged)

text \<open>
  C9. \<open>_is_contradictory\<close> returns \<open>False\<close> for every fact and every list of context
  facts; so for every answer and every non-empty context whose joined content yields at
  least one extracted fact, \<open>_calculate_factual_consistency\<close> returns 1.0, and so does the
  \<open>consistency_score\<close> of \<open>calculate_generation_metrics\<close>.
\<close>

theorem contradiction_check_is_stub:
  "\<not> is_contradictory a_fact context_facts \<and>
   (context \<noteq> [] \<and> extract_facts (py_join '' '' (map get_content context)) \<noteq> [] \<longrightarrow>
      calculate_factual_consistency answer context = 1 \<and>
      consistency_score (calculate_generation_metrics answer reference context) = 1)"
  by (simp add: is_contradictory_never factual_consistency_one
      calculate_generation_metrics_def py_round4_one)

theorem contradiction_check_is_stub_witness:
  "[[''content'' \<mapsto> ''In 2020'']] \<noteq> [] \<and>
   extract_facts (py_join '' '' (map get_content [[''content'' \<mapsto> ''In 2020'']])) = [''2020''] \<and>
   extract_facts ''It was 1999'' = [''1999''] \<and>
   \<not> is_contradictory ''1999'' [''2020''] \<and>
   calculate_factual_consistency ''It was 1999'' [[''content'' \<mapsto> ''In 2020'']] = 1 \<and>
   consistency_score (calculate_generation_metrics ''It was 1999'' ''It was 2020''
      [[''content'' \<mapsto> ''In 2020'']]) = 1"
proof -
  have facts: "extract_facts (py_join '' '' (map get_content [[''content'' \<mapsto> ''In 2020'']])) = [''2020'']"
    by code_simp
  have afacts: "extract_facts ''It was 1999'' = [''1999'']"
    by code_simp
  from contradiction_check_is_stub [of "''1999''" "[''2020'']" "[[''content'' \<mapsto> ''In 2020'']]"
      "''It was 1999''" "''It was 2020''"] facts afacts
  show ?thesis by simp
qed

lemma token_found_iff: "token_found t rs \<longleftrightarrow> t \<in> set rs"
  by (induction rs) auto

lemma count_overlaps_all:
  "set gs \<subseteq> set rs \<Longrightarrow> count_overlaps gs rs n = n + length gs"
  by (induction gs arbitrary: n) (simp_all add: token_found_iff)

lemma bleu_same:
  "py_split (lower ans) \<noteq> [] \<Longrightarrow> calculate_bleu_score ans ans = 1"
  by (simp add: calculate_bleu_score_def Let_def count_overlaps_all)

lemma rouge_same:
  "py_split (lower ans) \<noteq> [] \<Longrightarrow> calculate_rouge_score ans ans = 1"
  by (simp add: calculate_rouge_score_def Let_def card_gt_0_iff)

lemma bleu_no_tokens:
  "py_split (lower gen) = [] \<Longrightarrow> calculate_bleu_score gen reference = 0"
  by (simp add: calculate_bleu_score_def)

lemma rouge_no_tokens:
  "py_split (lower reference) = [] \<Longrightarrow> calculate_rouge_score gen reference = 0"
  by (simp add: calculate_rouge_score_def)

lemma split_ws_Nil_iff:
  "split_ws cur s = [] \<longleftrightarrow> cur = [] \<and> (\<forall>c\<in>set s. isspace c)"
  by (induction s arbitrary: cur) auto

lemma py_split_Nil_iff: "py_split s = [] \<longleftrightarrow> (\<forall>c\<in>set s. isspace c)"
  by (simp add: py_split_def split_ws_Nil_iff)

lemma code_char_of: "n < 256 \<Longrightarrow> code (char_of n) = n"
  by (simp add: code_def)

lemma code_lt: "code c < 256"
proof -
  have "(of_char c :: nat) mod 256 < 256" by (rule mod_less_divisor) simp
  then show ?thesis by (simp add: code_def)
qed

lemma isspace_lower_char: "isspace (lower_char c) = isspace c"
proof -
  have "code c < 256" by (rule code_lt)
  then show ?thesis
    by (auto simp: isspace_def lower_char_def Let_def code_char_of)
qed

lemma py_split_lower_Nil_iff: "py_split (lower s) = [] \<longleftrightarrow> (\<forall>c\<in>set s. isspace c)"
  by (simp add: py_split_Nil_iff lower_def isspace_lower_char)


text \<open>
  C8 (as amended). For every answer with at least one character that is not whitespace,
  and every context, \<open>calculate_generation_metrics\<close> with the generated answer equal to
  the reference returns \<open>bleu_score = 1.0\<close> and \<open>rouge_score = 1.0\<close>; for an answer
  that is empty or all whitespace both scores are 0.0.
\<close>

theorem identical_answer_scores:
  "((\<exists>c\<in>set ans. \<not> isspace c) \<longrightarrow>
      bleu_score (calculate_generation_metrics ans ans context) = 1 \<and>
      rouge_score (calculate_generation_metrics ans ans context) = 1) \<and>
   ((\<forall>c\<in>set ans. isspace c) \<longrightarrow>
      bleu_score (calculate_generation_metrics ans ans context) = 0 \<and>
      rouge_score (calculate_generation_metrics ans ans context) = 0)"
proof (cases "py_split (lower ans) = []")
  case True
  then show ?thesis
    using py_split_lower_Nil_iff [of ans]
    by (simp add: calculate_generation_metrics_def bleu_no_tokens rouge_no_tokens py_round4_zero)
next
  case False
  then show ?thesis
    using py_split_lower_Nil_iff [of ans]
    by (auto simp add: calculate_generation_metrics_def bleu_same rouge_same py_round4_one)
qed

text \<open>The claim as stated fails at the empty answer.\<close>

theorem identical_answer_scores_counterexample:
  "bleu_score (calculate_generation_metrics [] [] []) \<noteq> 1 \<and>
   rouge_score (calculate_generation_metrics [] [] []) \<noteq> 1"
  by (simp add: calculate_generation_metrics_def calculate_bleu_score_def
      calculate_rouge_score_def py_split_def lower_def py_round4_zero)

theorem identical_answer_scores_witness:
  "(\<exists>c\<in>set ''Paris is big''. \<not> isspace c) \<and>
   bleu_score (calculate_generation_metrics ''Paris is big'' ''Paris is big'' []) = 1 \<and>
   rouge_score (calculate_generation_metrics ''Paris is big'' ''Paris is big'' []) = 1 \<and>
   list_all isspace ''  '' \<and>
   bleu_score (calculate_generation_metrics ''  '' ''  '' []) = 0 \<and>
   rouge_score (calculate_generation_metrics ''  '' ''  '' []) = 0"
proof -
  have a: "\<exists>c\<in>set ''Paris is big''. \<not> isspace c" by (simp add: isspace_def code_def)
  have b: "\<forall>c\<in>set ''  ''. isspace c" by (simp add: isspace_def code_def)
  from a b identical_answer_scores [of "''Paris is big''" "[]"] identical_answer_scores [of "''  ''" "[]"]
  show ?thesis by (simp add: list_all_iff)
qed

subsection \<open>Retrieval metrics\<close>

lemma mrr_loop_rank:
  "mrr_loop i ds R =
     (case first_relevant_rank ds R of None \<Rightarrow> 0 | Some r \<Rightarrow> 1 / real (i + r))"
  by (induction ds arbitrary: i) (auto simp: first_relevant_rank_def)

lemma calculate_mrr_rank:
  "calculate_mrr ds R =
     (case first_relevant_rank ds R of None \<Rightarrow> 0 | Some r \<Rightarrow> 1 / real r)"
  by (simp add: calculate_mrr_def mrr_loop_rank split: option.split)

lemma log2_pos: "0 < log 2 (real i + 2)"
  by simp

text \<open>
  C10 (as amended). The \<open>mrr\<close> returned by \<open>calculate_retrieval_metrics\<close> does not depend
  on \<open>k\<close>: for every retrieved list, relevant list and \<open>k\<close> it is \<open>round(1.0 / rank, 4)\<close>,
  the float quotient of 1 by \<open>rank\<close> rounded to 4 decimal places as Python rounds it,
  where \<open>rank\<close> is the 1-based position of the first document of the whole retrieved
  list whose id is relevant; it is 0.0 if there is none. With \<open>k = 0\<close> the precision,
  recall and ndcg are 0.0, whatever the \<open>mrr\<close> is.
\<close>

theorem mrr_independent_of_k:
  "mrr (calculate_retrieval_metrics query retrieved relevant k) =
     py_round4 (case first_relevant_rank retrieved (get_id ` set relevant) of
                  None \<Rightarrow> 0 | Some r \<Rightarrow> 1 / real r) \<and>
   precision (calculate_retrieval_metrics query retrieved relevant 0) = 0 \<and>
   recall (calculate_retrieval_metrics query retrieved relevant 0) = 0 \<and>
   ndcg (calculate_retrieval_metrics query retrieved relevant 0) = 0"
  by (simp add: calculate_retrieval_metrics_def Let_def calculate_mrr_rank py_round4_zero
      py_prefix_def calculate_ndcg_def first_relevant_rank_def)


text \<open>
  The claim as stated fails where the rounding shows: at rank 3 the returned value is
  0.3333, not \<open>1 / 3\<close>.
\<close>

theorem mrr_independent_of_k_counterexample:
  "mrr (calculate_retrieval_metrics ''q'' [[''id'' \<mapsto> ''a''], [''id'' \<mapsto> ''b''], [''id'' \<mapsto> ''c'']]
      [[''id'' \<mapsto> ''c'']] 3) = 3333 / 10000 \<and>
   first_relevant_rank [[''id'' \<mapsto> ''a''], [''id'' \<mapsto> ''b''], [''id'' \<mapsto> ''c'']]
      (get_id ` set [[''id'' \<mapsto> ''c'']]) = Some 3 \<and>
   mrr (calculate_retrieval_metrics ''q'' [[''id'' \<mapsto> ''a''], [''id'' \<mapsto> ''b''], [''id'' \<mapsto> ''c'']]
      [[''id'' \<mapsto> ''c'']] 3) \<noteq> 1 / 3"
  by (simp add: calculate_retrieval_metrics_def Let_def calculate_mrr_def get_id_def
      py_round4_third first_relevant_rank_def)

lemma first_relevant_rank_after_misses:
  assumes "get_id d \<notin> R" and "get_id a \<in> R"
  shows "first_relevant_rank (replicate n d @ [a]) R = Some (n + 1)"
proof -
  have "takeWhile (\<lambda>x. get_id x \<notin> R) (replicate n d @ [a]) =
          replicate n d @ takeWhile (\<lambda>x. get_id x \<notin> R) [a]"
    by (rule takeWhile_append2) (simp add: assms(1))
  then show ?thesis using assms by (simp add: first_relevant_rank_def)
qed

text \<open>
  At \<open>k = 0\<close> the \<open>mrr\<close> is 1.0 while precision, recall and ndcg are 0.0; and a first
  relevant document at rank 160, after 159 others, gives the \<open>mrr\<close> 0.0063 for \<open>k = 10\<close>.
\<close>

theorem mrr_independent_of_k_witness:
  "mrr (calculate_retrieval_metrics ''q'' [[''id'' \<mapsto> ''a''], [''id'' \<mapsto> ''b'']] [[''id'' \<mapsto> ''a'']] 0) = 1 \<and>
   precision (calculate_retrieval_metrics ''q'' [[''id'' \<mapsto> ''a''], [''id'' \<mapsto> ''b'']] [[''id'' \<mapsto> ''a'']] 0) = 0 \<and>
   recall (calculate_retrieval_metrics ''q'' [[''id'' \<mapsto> ''a''], [''id'' \<mapsto> ''b'']] [[''id'' \<mapsto> ''a'']] 0) = 0 \<and>
   ndcg (calculate_retrieval_metrics ''q'' [[''id'' \<mapsto> ''a''], [''id'' \<mapsto> ''b'']] [[''id'' \<mapsto> ''a'']] 0) = 0 \<and>
   mrr (calculate_retrieval_metrics ''q'' (replicate 159 [''id'' \<mapsto> ''b''] @ [[''id'' \<mapsto> ''a'']])
      [[''id'' \<mapsto> ''a'']] 10) = 63 / 10000"
proof -
  have r: "first_relevant_rank (replicate 159 [''id'' \<mapsto> ''b''] @ [[''id'' \<mapsto> ''a'']])
             (get_id ` set [[''id'' \<mapsto> ''a'']]) = Some (159 + 1)"
    by (rule first_relevant_rank_after_misses) (simp_all add: get_id_def)
  have far: "mrr (calculate_retrieval_metrics ''q''
      (replicate 159 [''id'' \<mapsto> ''b''] @ [[''id'' \<mapsto> ''a'']]) [[''id'' \<mapsto> ''a'']] 10) = 63 / 10000"
    using mrr_independent_of_k [of "''q''" "replicate 159 [''id'' \<mapsto> ''b''] @ [[''id'' \<mapsto> ''a'']]"
        "[[''id'' \<mapsto> ''a'']]" 10]
    by (simp only: r option.case) (simp add: py_round4_160)
  have near:
    "mrr (calculate_retrieval_metrics ''q'' [[''id'' \<mapsto> ''a''], [''id'' \<mapsto> ''b'']] [[''id'' \<mapsto> ''a'']] 0) = 1 \<and>
     precision (calculate_retrieval_metrics ''q'' [[''id'' \<mapsto> ''a''], [''id'' \<mapsto> ''b'']] [[''id'' \<mapsto> ''a'']] 0) = 0 \<and>
     recall (calculate_retrieval_metrics ''q'' [[''id'' \<mapsto> ''a''], [''id'' \<mapsto> ''b'']] [[''id'' \<mapsto> ''a'']] 0) = 0 \<and>
     ndcg (calculate_retrieval_metrics ''q'' [[''id'' \<mapsto> ''a''], [''id'' \<mapsto> ''b'']] [[''id'' \<mapsto> ''a'']] 0) = 0"
    using mrr_independent_of_k [of "''q''" "[[''id'' \<mapsto> ''a''], [''id'' \<mapsto> ''b'']]" "[[''id'' \<mapsto> ''a'']]" 0]
    by (simp add: first_relevant_rank_def get_id_def py_round4_one)
  from near far show ?thesis by simp
qed


lemma py_prefix_whole: "py_prefix (int (length xs)) xs = xs"
  by (simp add: py_prefix_def)

lemma idcg_loop_ge: "acc \<le> idcg_loop i n acc"
proof (induction n arbitrary: i acc)
  case 0
  then show ?case by simp
next
  case (Suc n)
  have "acc \<le> acc + 1 / log 2 (real i + 2)" by simp
  also have "\<dots> \<le> idcg_loop (Suc i) n (acc + 1 / log 2 (real i + 2))" by (rule Suc.IH)
  finally show ?case by simp
qed

lemma idcg_loop_pos: "0 < n \<Longrightarrow> 0 \<le> acc \<Longrightarrow> 0 < idcg_loop i n acc"
proof (cases n)
  case 0
  assume "0 < n" with 0 show ?thesis by simp
next
  case (Suc m)
  assume "0 \<le> acc"
  have "0 < 1 / log 2 (real i + 2)" by simp
  with \<open>0 \<le> acc\<close> have "0 < acc + 1 / log 2 (real i + 2)" by linarith
  also have "\<dots> \<le> idcg_loop (Suc i) m (acc + 1 / log 2 (real i + 2))" by (rule idcg_loop_ge)
  finally show ?thesis using Suc by simp
qed

lemma dcg_loop_all_relevant:
  "\<forall>d\<in>set ds. get_id d \<in> R \<Longrightarrow> dcg_loop i ds R acc = idcg_loop i (length ds) acc"
  by (induction ds arbitrary: i acc) simp_all

lemma card_ids: "distinct (map get_id ds) \<Longrightarrow> card (get_id ` set ds) = length ds"
  using distinct_card [of "map get_id ds"] by simp

lemma ndcg_all_relevant:
  assumes "ds \<noteq> []" "distinct (map get_id ds)"
  shows "calculate_ndcg ds (get_id ` set ds) (int (length ds)) = 1"
proof -
  have d: "dcg_loop 0 ds (get_id ` set ds) 0 = idcg_loop 0 (length ds) 0"
    by (rule dcg_loop_all_relevant) simp
  have p: "0 < idcg_loop 0 (length ds) 0"
    using assms(1) by (intro idcg_loop_pos) simp_all
  show ?thesis
    using p by (simp add: calculate_ndcg_def Let_def py_prefix_whole card_ids [OF assms(2)] d)
qed

text \<open>
  C6 (as amended). For every non-empty retrieved list whose ids are pairwise distinct,
  \<open>calculate_retrieval_metrics\<close> with the relevant ids equal to the set of retrieved ids
  and \<open>k\<close> equal to the length of the retrieved list returns precision, recall,
  f1_score, mrr and ndcg all equal to 1.0.
\<close>

theorem perfect_match_all_one:
  assumes "retrieved \<noteq> []"
    and "distinct (map get_id retrieved)"
    and "get_id ` set relevant = set (map get_id retrieved)"
  shows "calculate_retrieval_metrics query retrieved relevant (int (length retrieved)) =
           \<lparr>precision = 1, recall = 1, f1_score = 1, mrr = 1, ndcg = 1\<rparr>"
proof -
  let ?R = "get_id ` set retrieved"
  have r: "get_id ` set relevant = ?R" using assms(3) by simp
  have c: "card ?R = length retrieved" using assms(2) by (rule card_ids)
  have m: "calculate_mrr retrieved ?R = 1"
    using assms(1) by (cases retrieved) (simp_all add: calculate_mrr_def)
  have n: "calculate_ndcg retrieved ?R (int (length retrieved)) = 1"
    using assms(1,2) by (rule ndcg_all_relevant)
  have l: "0 < length retrieved" using assms(1) by simp
  show ?thesis
    unfolding calculate_retrieval_metrics_def Let_def r py_prefix_whole
    using assms(1) l by (simp add: c m n py_round4_one)
qed

text \<open>
  The claim as stated fails for a list that repeats an id: the precision counts the
  distinct retrieved ids against the length of the list.
\<close>

theorem perfect_match_all_one_counterexample:
  "get_id ` set [[''id'' \<mapsto> ''a'']] = set (map get_id [[''id'' \<mapsto> ''a''], [''id'' \<mapsto> ''a'']]) \<and>
   precision (calculate_retrieval_metrics ''q'' [[''id'' \<mapsto> ''a''], [''id'' \<mapsto> ''a'']]
      [[''id'' \<mapsto> ''a'']] (int (length [[''id'' \<mapsto> ''a''], [''id'' \<mapsto> ''a'']]))) \<noteq> 1"
  by (simp add: calculate_retrieval_metrics_def Let_def py_prefix_def get_id_def
      py_round4_half)

theorem perfect_match_all_one_witness:
  "calculate_retrieval_metrics ''q'' [[''id'' \<mapsto> ''a''], [''id'' \<mapsto> ''b'']]
      [[''id'' \<mapsto> ''b''], [''id'' \<mapsto> ''a'']] 2 =
     \<lparr>precision = 1, recall = 1, f1_score = 1, mrr = 1, ndcg = 1\<rparr>"
  using perfect_match_all_one [of "[[''id'' \<mapsto> ''a''], [''id'' \<mapsto> ''b'']]" "[[''id'' \<mapsto> ''b''], [''id'' \<mapsto> ''a'']]" "''q''"]
  by (simp add: get_id_def insert_commute)

lemma log2_3_le: "log 2 3 \<le> (2::real)"
proof -
  have "log 2 3 \<le> log 2 (4::real)" by simp
  also have "log 2 (4::real) = 2"
    using log_nat_power [of 2 2 2] by simp
  finally show ?thesis .
qed

lemma ndcg_dup: "calculate_ndcg [[''id'' \<mapsto> ''a''], [''id'' \<mapsto> ''a'']] (get_id ` set [[''id'' \<mapsto> ''a'']]) 2 = 1 + 1 / log 2 3"
  by (simp add: calculate_ndcg_def Let_def py_prefix_def get_id_def numeral_2_eq_2)

text \<open>
  C4, at a retrieved list that repeats a relevant id: the ndcg returned by
  \<open>calculate_retrieval_metrics\<close> is greater than 1 (it is \<open>1 + 1 / log2 3\<close>, rounded).
\<close>

theorem ndcg_exceeds_one_on_repeated_id:
  "1 < ndcg (calculate_retrieval_metrics ''q'' [[''id'' \<mapsto> ''a''], [''id'' \<mapsto> ''a'']]
        [[''id'' \<mapsto> ''a'']] 2)"
proof -
  have "0 < log 2 (3::real)" by simp
  with log2_3_le have "1 / 2 \<le> 1 / log 2 (3::real)"
    by (simp add: field_simps)
  then have lo: "3 / 2 \<le> 1 + 1 / log 2 (3::real)" by simp
  have "1 < log 2 (3::real)" by simp
  then have "1 / log 2 (3::real) < 1" by simp
  then have hi: "1 + 1 / log 2 (3::real) < 2" by simp
  from lo hi have "3 / 2 \<le> py_round4 (1 + 1 / log 2 3)" by (rule py_round4_lower_15)
  moreover have "ndcg (calculate_retrieval_metrics ''q'' [[''id'' \<mapsto> ''a''], [''id'' \<mapsto> ''a'']]
        [[''id'' \<mapsto> ''a'']] 2) = py_round4 (1 + 1 / log 2 3)"
    using ndcg_dup by (simp add: calculate_retrieval_metrics_def Let_def)
  ultimately show ?thesis by simp
qed

lemma discount_pos: "0 < discount n"
  by (simp add: discount_def)

lemma discount_antimono: "i \<le> j \<Longrightarrow> discount j \<le> discount i"
  unfolding discount_def
  by (intro divide_left_mono) (simp_all)

lemma dcg_loop_sum:
  "dcg_loop i ds R acc = acc + (\<Sum>n<length ds. gain R (ds ! n) * discount (i + n))"
proof (induction ds arbitrary: i acc)
  case Nil
  then show ?case by simp
next
  case (Cons d ds)
  have "dcg_loop i (d # ds) R acc =
          acc + gain R d * discount i + (\<Sum>n<length ds. gain R (ds ! n) * discount (Suc i + n))"
    by (simp add: Cons.IH gain_def discount_def)
  also have "\<dots> = acc + (\<Sum>n<length (d # ds). gain R ((d # ds) ! n) * discount (i + n))"
    by (simp add: sum.lessThan_Suc_shift del: sum.lessThan_Suc)
  finally show ?case .
qed

lemma swap_nth:
  assumes "i < length xs" "j < length xs" "i \<noteq> j" "n < length xs"
  shows "(xs[i := xs ! j, j := xs ! i]) ! n =
           (if n = j then xs ! i else if n = i then xs ! j else xs ! n)"
  using assms by (simp add: nth_list_update)

lemma dcg_swap:
  assumes ij: "i < j" and j: "j < length xs"
    and ri: "get_id (xs ! i) \<in> R" and rj: "get_id (xs ! j) \<notin> R"
    and m: "m \<le> length xs"
  shows "(\<Sum>n<m. gain R ((xs[i := xs ! j, j := xs ! i]) ! n) * discount n) \<le>
         (\<Sum>n<m. gain R (xs ! n) * discount n)"
proof -
  let ?xs' = "xs[i := xs ! j, j := xs ! i]"
  let ?di = "\<lambda>n. if n = i then discount i else 0"
  let ?dj = "\<lambda>n. if n = j then discount j else 0"
  have pt: "gain R (?xs' ! n) * discount n = gain R (xs ! n) * discount n - ?di n + ?dj n"
    if "n < m" for n
  proof -
    from that m have "n < length xs" by simp
    with ij j have "?xs' ! n = (if n = j then xs ! i else if n = i then xs ! j else xs ! n)"
      by (intro swap_nth) simp_all
    with ij ri rj show ?thesis by (auto simp: gain_def)
  qed
  have "(\<Sum>n<m. gain R (?xs' ! n) * discount n) =
        (\<Sum>n<m. gain R (xs ! n) * discount n - ?di n + ?dj n)"
    by (rule sum.cong) (simp_all add: pt)
  also have "\<dots> = (\<Sum>n<m. gain R (xs ! n) * discount n) - (\<Sum>n<m. ?di n) + (\<Sum>n<m. ?dj n)"
    by (simp add: sum.distrib sum_subtractf)
  also have "(\<Sum>n<m. ?di n) = (if i < m then discount i else 0)"
    by (simp add: sum.delta)
  also have "(\<Sum>n<m. ?dj n) = (if j < m then discount j else 0)"
    by (simp add: sum.delta)
  also have "(\<Sum>n<m. gain R (xs ! n) * discount n) - (if i < m then discount i else 0) +
               (if j < m then discount j else 0) \<le> (\<Sum>n<m. gain R (xs ! n) * discount n)"
    using ij discount_antimono [of i j] discount_pos [of i] by auto
  finally show ?thesis .
qed

lemma py_prefix_length_update:
  "length (py_prefix k (xs[i := a, j := b])) = length (py_prefix k xs)"
  by (simp add: py_prefix_def)

lemma dcg_prefix_sum:
  "dcg_loop 0 (py_prefix k xs) R 0 =
     (\<Sum>n<length (py_prefix k xs). gain R (xs ! n) * discount n)"
proof -
  have "dcg_loop 0 (py_prefix k xs) R 0 =
     (\<Sum>n<length (py_prefix k xs). gain R (py_prefix k xs ! n) * discount n)"
    by (simp add: dcg_loop_sum)
  also have "\<dots> = (\<Sum>n<length (py_prefix k xs). gain R (xs ! n) * discount n)"
    by (rule sum.cong) (auto simp: py_prefix_def)
  finally show ?thesis .
qed

text \<open>
  C7. For a fixed relevant set and a fixed \<open>k\<close>, exchanging a relevant document at
  position \<open>i\<close> with a non-relevant one at a later position \<open>j\<close> never increases the value
  of \<open>_calculate_ndcg\<close>.
\<close>

theorem ndcg_swap_later_not_greater:
  assumes "i < j" and "j < length retrieved"
    and "get_id (retrieved ! i) \<in> relevant_ids"
    and "get_id (retrieved ! j) \<notin> relevant_ids"
  shows "calculate_ndcg (retrieved[i := retrieved ! j, j := retrieved ! i]) relevant_ids k
           \<le> calculate_ndcg retrieved relevant_ids k"
proof -
  let ?xs' = "retrieved[i := retrieved ! j, j := retrieved ! i]"
  let ?m = "length (py_prefix k retrieved)"
  have len: "length (py_prefix k ?xs') = ?m" by (rule py_prefix_length_update)
  have m: "?m \<le> length retrieved" by (simp add: py_prefix_def)
  have "dcg_loop 0 (py_prefix k ?xs') relevant_ids 0 =
          (\<Sum>n<?m. gain relevant_ids (?xs' ! n) * discount n)"
    by (simp only: dcg_prefix_sum len)
  also have "\<dots> \<le> (\<Sum>n<?m. gain relevant_ids (retrieved ! n) * discount n)"
    using assms m by (rule dcg_swap)
  also have "\<dots> = dcg_loop 0 (py_prefix k retrieved) relevant_ids 0"
    by (simp only: dcg_prefix_sum)
  finally have "dcg_loop 0 (py_prefix k ?xs') relevant_ids 0 \<le>
                dcg_loop 0 (py_prefix k retrieved) relevant_ids 0" .
  then show ?thesis
    by (simp add: calculate_ndcg_def Let_def divide_right_mono)
qed

theorem ndcg_swap_later_not_greater_witness:
  "(0::nat) < 1 \<and> 1 < length [[''id'' \<mapsto> ''a''], [''id'' \<mapsto> ''b'']] \<and>
   get_id ([[''id'' \<mapsto> ''a''], [''id'' \<mapsto> ''b'']] ! 0) \<in> {Some ''a''} \<and>
   get_id ([[''id'' \<mapsto> ''a''], [''id'' \<mapsto> ''b'']] ! 1) \<notin> {Some ''a''} \<and>
   calculate_ndcg [[''id'' \<mapsto> ''b''], [''id'' \<mapsto> ''a'']] {Some ''a''} 2
     \<le> calculate_ndcg [[''id'' \<mapsto> ''a''], [''id'' \<mapsto> ''b'']] {Some ''a''} 2"
  using ndcg_swap_later_not_greater [of 0 1 "[[''id'' \<mapsto> ''a''], [''id'' \<mapsto> ''b'']]" "{Some ''a''}" 2]
  by (simp add: get_id_def)

section \<open>Properties of the chunker\<close>

lemma any_search_iff: "any_search pats s \<longleftrightarrow> (\<exists>pat\<in>set pats. re_search pat s)"
  by (induction pats) auto

lemma language_score_pos: "0 < language_score pats s \<longleftrightarrow> any_search pats s"
  by (auto simp: language_score_def any_search_iff filter_empty_conv)

lemma first_language_find:
  "first_language lps s = map_option fst (find (\<lambda>(lang, pats). 0 < language_score pats s) lps)"
  by (induction lps) (auto simp: language_score_pos)

text \<open>
  C3 (as amended). \<open>_detect_language\<close> on code content does not compare scores: it
  returns the first language, in the order of declaration, that has at least one pattern
  matching somewhere in the content, and \<open>None\<close> when no language has one; on content
  that is not code it returns \<open>None\<close>.
\<close>

theorem detect_language_first_declared:
  "detect_language s ''code'' =
     map_option fst (find (\<lambda>(lang, pats). 0 < language_score pats s) language_patterns) \<and>
   (ctype \<noteq> ''code'' \<longrightarrow> detect_language s ctype = None)"
  by (simp add: detect_language_def first_language_find)

text \<open>
  The claim as stated fails: a content with one Python pattern and two JavaScript
  patterns is classified as Python, the language declared earlier.
\<close>

theorem detect_language_first_declared_counterexample:
  "language_score (patterns_of ''python'') ''import os; const a = 1; let b = 2'' = 1 \<and>
   language_score (patterns_of ''javascript'') ''import os; const a = 1; let b = 2'' = 2 \<and>
   detect_language ''import os; const a = 1; let b = 2'' ''code'' = Some ''python''"
  by code_simp

theorem detect_language_first_declared_witness:
  "detect_language ''func main() { fmt.Println(1) }'' ''code'' = Some ''go'' \<and>
   map_option fst (find (\<lambda>(lang, pats). 0 < language_score pats ''func main() { fmt.Println(1) }'') language_patterns) = Some ''go'' \<and>
   detect_language ''func main() { fmt.Println(1) }'' ''text'' = None"
  using detect_language_first_declared [of "''func main() { fmt.Println(1) }''" "''text''"]
  by code_simp

text \<open>
  C2 (as amended). \<open>process\<close> with empty content returns a failure: \<open>success\<close> is false,
  the error message is "No content provided for chunking", and there is no data, hence
  no sequence of chunks.
\<close>

theorem empty_content_is_failure:
  "in_content inp = [] \<Longrightarrow>
     process parse cfg inp =
       \<lparr>success = False, data = None, error_message = Some ''No content provided for chunking''\<rparr>"
  by (simp add: process_def failure_def Let_def)

text \<open>The claim as stated fails at the empty string.\<close>

theorem empty_content_is_failure_counterexample:
  "success (process (\<lambda>s. SyntaxError) default_config
      \<lparr>in_document_id = ''doc'', in_content = [], in_source_type = ''text'',
       in_metadata = Map.empty\<rparr>) = False \<and>
   data (process (\<lambda>s. SyntaxError) default_config
      \<lparr>in_document_id = ''doc'', in_content = [], in_source_type = ''text'',
       in_metadata = Map.empty\<rparr>) = None"
  by (simp add: process_def failure_def Let_def)

theorem empty_content_is_failure_witness:
  "in_content \<lparr>in_document_id = ''doc'', in_content = [], in_source_type = ''web'',
       in_metadata = Map.empty\<rparr> = [] \<and> 
   process (\<lambda>s. Parsed []) default_config
      \<lparr>in_document_id = ''doc'', in_content = [], in_source_type = ''web'',
       in_metadata = Map.empty\<rparr> =
     \<lparr>success = False, data = None, error_message = Some ''No content provided for chunking''\<rparr>"
  using empty_content_is_failure [of "\<lparr>in_document_id = ''doc'', in_content = [], in_source_type = ''web'',
       in_metadata = Map.empty\<rparr>" "\<lambda>s. Parsed []" default_config]
  by simp

text \<open>
  C5, at the input of the scenario: \<open>_chunk_markdown\<close> yields two chunks with the
  headers "# Title" and "## Sub", and the \<open>header_level\<close> of both is 0.
\<close>

theorem markdown_scenario_header_level_zero:
  "map (\<lambda>c. (content c, metadata c ''header'', metadata c ''header_level''))
     (chunk_markdown
        (''# Title'' @ [CHR 0x0A] @ ''Body text.'' @ [CHR 0x0A, CHR 0x0A] @ ''## Sub'' @ [CHR 0x0A] @ ''More text.'')
        ''doc'' Map.empty) =
   [(''# Title'' @ [CHR 0x0A] @ ''Body text.'' @ [CHR 0x0A], Some (MStr ''# Title''), Some (MInt 0)),
    (''## Sub'' @ [CHR 0x0A] @ ''More text.'', Some (MStr ''## Sub''), Some (MInt 0))]"
  by code_simp

subsection \<open>The header level of a markdown chunk\<close>

text \<open>
  A heading line starts with \<open>#\<close>, so the piece before the first \<open>#\<close> is empty: the
  \<open>header_level\<close> of every chunk of \<open>_chunk_markdown\<close> is 0.
\<close>

lemma header_starts_with_hash:
  "re_match header_pattern line \<Longrightarrow> \<exists>rest. line = CHR ''#'' # rest"
  by (cases line) (auto simp: re_match_def header_pattern_def split: if_splits)

lemma header_level_of_header:
  "re_match header_pattern line \<Longrightarrow> header_level (Some line) = 0"
  by (auto simp: header_level_def py_split_on_def dest!: header_starts_with_hash)

lemma markdown_loop_level_zero:
  "current_header = None \<or> (\<exists>l. current_header = Some l \<and> re_match header_pattern l) \<Longrightarrow>
   c \<in> set (markdown_loop doc_id md lines current_chunk current_header idx) \<Longrightarrow>
   metadata c ''header_level'' = Some (MInt 0)"
proof (induction lines arbitrary: current_chunk current_header idx)
  case Nil
  then have "header_level current_header = 0"
    by (auto simp: header_level_of_header) (simp add: header_level_def)
  with Nil.prems(2) show ?case
    by (simp add: markdown_chunk_def Let_def split: if_splits)
next
  case (Cons line lines)
  have lvl: "header_level current_header = 0"
    using Cons.prems(1) by (auto simp: header_level_of_header) (simp add: header_level_def)
  show ?case
  proof (cases "re_match header_pattern line")
    case True
    with Cons.prems(2) have
      "c = markdown_chunk doc_id md current_chunk current_header idx \<or>
       (\<exists>i. c \<in> set (markdown_loop doc_id md lines [line] (Some line) i))"
      by (auto split: if_splits)
    then show ?thesis
    proof
      assume "c = markdown_chunk doc_id md current_chunk current_header idx"
      with lvl show ?thesis by (simp add: markdown_chunk_def Let_def)
    next
      assume "\<exists>i. c \<in> set (markdown_loop doc_id md lines [line] (Some line) i)"
      then obtain i where "c \<in> set (markdown_loop doc_id md lines [line] (Some line) i)" by blast
      moreover from True have
        "Some line = None \<or> (\<exists>l. Some line = Some l \<and> re_match header_pattern l)" by simp
      ultimately show ?thesis by (rule Cons.IH [rotated])
    qed
  next
    case False
    with Cons.prems(2) have
      "c \<in> set (markdown_loop doc_id md lines (current_chunk @ [line]) current_header idx)"
      by simp
    with Cons.prems(1) show ?thesis by (rule Cons.IH)
  qed
qed

lemma chunk_markdown_level_zero:
  assumes "c \<in> set (chunk_markdown s doc_id md)"
  shows "metadata c ''header_level'' = Some (MInt 0)"
proof -
  have "(None :: string option) = None \<or> (\<exists>l. None = Some l \<and> re_match header_pattern l)"
    by simp
  from this assms [unfolded chunk_markdown_def] show ?thesis
    by (rule markdown_loop_level_zero)
qed

subsection \<open>Every strategy counts the tokens of its chunks\<close>

lemma split_ws_append_space:
  "isspace c \<Longrightarrow> split_ws cur (a @ c # b) = split_ws cur a @ split_ws [] b"
  by (induction a arbitrary: cur) simp_all

lemma py_split_append_space:
  "isspace c \<Longrightarrow> py_split (a @ c # b) = py_split a @ py_split b"
  by (simp add: py_split_def split_ws_append_space)

lemma token_len_join:
  "isspace c \<Longrightarrow> token_len (py_join [c] xs) = sum_list (map token_len xs)"
proof (induction "[c]" xs rule: py_join.induct)
  case 1
  then show ?case by (simp add: token_len_def py_split_def)
next
  case (2 x)
  then show ?case by simp
next
  case (3 x y ys)
  then show ?case by (simp add: token_len_def py_split_append_space)
qed

lemma isspace_blank: "isspace (CHR '' '')"
  by (simp add: isspace_def code_def)

lemma isspace_newline: "isspace (CHR 0x0A)"
  by (simp add: isspace_def code_def)

lemma lines_loop_counted:
  "current_tokens = sum_list (map token_len current_chunk) \<Longrightarrow>
   c \<in> set (lines_loop cfg doc_id lang md lines current_chunk current_tokens idx) \<Longrightarrow>
   counted c"
proof (induction lines arbitrary: current_chunk current_tokens idx)
  case Nil
  then show ?case
    by (auto simp: counted_def line_chunk_def token_len_join isspace_newline split: if_splits)
next
  case (Cons line lines)
  show ?case
  proof (cases "chunk_size cfg < int (current_tokens + token_len line) \<and> current_chunk \<noteq> []")
    case True
    with Cons.prems(2) have
      "c = line_chunk doc_id lang md current_chunk current_tokens idx \<or>
       c \<in> set (lines_loop cfg doc_id lang md lines
              ((if 5 \<le> length current_chunk then py_last_n 5 current_chunk else current_chunk) @ [line])
              (sum_list (map token_len
                 ((if 5 \<le> length current_chunk then py_last_n 5 current_chunk else current_chunk) @ [line])))
              (idx + 1))"
      by (simp add: Let_def)
    then show ?thesis
    proof
      assume "c = line_chunk doc_id lang md current_chunk current_tokens idx"
      with Cons.prems(1) show ?thesis
        by (simp add: counted_def line_chunk_def token_len_join isspace_newline)
    next
      assume "c \<in> set (lines_loop cfg doc_id lang md lines
              ((if 5 \<le> length current_chunk then py_last_n 5 current_chunk else current_chunk) @ [line])
              (sum_list (map token_len
                 ((if 5 \<le> length current_chunk then py_last_n 5 current_chunk else current_chunk) @ [line])))
              (idx + 1))"
      then show ?thesis by (rule Cons.IH [OF refl])
    qed
  next
    case False
    with Cons.prems(2) have
      "c \<in> set (lines_loop cfg doc_id lang md lines (current_chunk @ [line])
              (current_tokens + token_len line) idx)"
      by (auto simp: Let_def)
    moreover have "current_tokens + token_len line = sum_list (map token_len (current_chunk @ [line]))"
      using Cons.prems(1) by simp
    ultimately show ?thesis by (rule Cons.IH [rotated])
  qed
qed

lemma sentences_loop_counted:
  "current_tokens = sum_list (map token_len current_chunk) \<Longrightarrow>
   c \<in> set (sentences_loop cfg doc_id md sentences current_chunk current_tokens idx) \<Longrightarrow>
   counted c"
proof (induction sentences arbitrary: current_chunk current_tokens idx)
  case Nil
  then show ?case
    by (auto simp: counted_def sentence_chunk_def token_len_join isspace_blank split: if_splits)
next
  case (Cons sentence sentences)
  show ?case
  proof (cases "chunk_size cfg < int (current_tokens + token_len sentence) \<and> current_chunk \<noteq> []")
    case True
    with Cons.prems(2) have
      "c = sentence_chunk doc_id md current_chunk current_tokens idx \<or>
       c \<in> set (sentences_loop cfg doc_id md sentences
              ((if 2 \<le> length current_chunk then py_last_n 2 current_chunk else current_chunk) @ [sentence])
              (sum_list (map token_len
                 ((if 2 \<le> length current_chunk then py_last_n 2 current_chunk else current_chunk) @ [sentence])))
              (idx + 1))"
      by (simp add: Let_def)
    then show ?thesis
    proof
      assume "c = sentence_chunk doc_id md current_chunk current_tokens idx"
      with Cons.prems(1) show ?thesis
        by (simp add: counted_def sentence_chunk_def token_len_join isspace_blank)
    next
      assume "c \<in> set (sentences_loop cfg doc_id md sentences
              ((if 2 \<le> length current_chunk then py_last_n 2 current_chunk else current_chunk) @ [sentence])
              (sum_list (map token_len
                 ((if 2 \<le> length current_chunk then py_last_n 2 current_chunk else current_chunk) @ [sentence])))
              (idx + 1))"
      then show ?thesis by (rule Cons.IH [OF refl])
    qed
  next
    case False
    with Cons.prems(2) have
      "c \<in> set (sentences_loop cfg doc_id md sentences (current_chunk @ [sentence])
              (current_tokens + token_len sentence) idx)"
      by (auto simp: Let_def)
    moreover have "current_tokens + token_len sentence =
        sum_list (map token_len (current_chunk @ [sentence]))"
      using Cons.prems(1) by simp
    ultimately show ?thesis by (rule Cons.IH [rotated])
  qed
qed

lemma paragraphs_loop_counted:
  "c \<in> set (paragraphs_loop cfg doc_id md paragraphs idx) \<Longrightarrow> counted c"
proof (induction paragraphs arbitrary: idx)
  case Nil
  then show ?case by simp
next
  case (Cons raw paragraphs)
  let ?p = "py_strip raw"
  show ?case
  proof (cases "?p = []")
    case True
    with Cons.prems have "c \<in> set (paragraphs_loop cfg doc_id md paragraphs idx)"
      by (simp add: Let_def)
    then show ?thesis by (rule Cons.IH)
  next
    case False
    show ?thesis
    proof (cases "chunk_size cfg < int (token_len ?p)")
      case True
      let ?new = "sentences_loop cfg doc_id md (split_sentences ?p) [] 0 idx"
      from Cons.prems \<open>?p \<noteq> []\<close> True have
        "c \<in> set ?new \<or> c \<in> set (paragraphs_loop cfg doc_id md paragraphs (idx + length ?new))"
        by (simp add: Let_def)
      then show ?thesis
      proof
        assume "c \<in> set ?new"
        then show ?thesis by (rule sentences_loop_counted [rotated]) simp
      next
        assume "c \<in> set (paragraphs_loop cfg doc_id md paragraphs (idx + length ?new))"
        then show ?thesis by (rule Cons.IH)
      qed
    next
      case nolong: False
      from Cons.prems \<open>?p \<noteq> []\<close> nolong have
        "c = paragraph_chunk doc_id md ?p idx \<or>
         c \<in> set (paragraphs_loop cfg doc_id md paragraphs (idx + 1))"
        by (simp add: Let_def)
      then show ?thesis
      proof
        assume "c = paragraph_chunk doc_id md ?p idx"
        then show ?thesis by (simp add: counted_def paragraph_chunk_def)
      next
        assume "c \<in> set (paragraphs_loop cfg doc_id md paragraphs (idx + 1))"
        then show ?thesis by (rule Cons.IH)
      qed
    qed
  qed
qed

lemma chunk_text_counted: "c \<in> set (chunk_text cfg s doc_id md) \<Longrightarrow> counted c"
  unfolding chunk_text_def by (rule paragraphs_loop_counted)

lemma chunk_by_lines_counted:
  assumes "c \<in> set (chunk_by_lines cfg s doc_id lang md)"
  shows "counted c"
proof -
  have "(0::nat) = sum_list (map token_len [])" by simp
  from this assms [unfolded chunk_by_lines_def] show ?thesis by (rule lines_loop_counted)
qed

lemma nodes_loop_counted: "c \<in> set (nodes_loop s doc_id md nodes idx) \<Longrightarrow> counted c"
  by (induction nodes arbitrary: idx) (auto simp: counted_def node_chunk_def Let_def)

lemma matches_loop_counted: "c \<in> set (matches_loop s doc_id lang md ms idx) \<Longrightarrow> counted c"
  by (induction ms arbitrary: idx) (auto simp: counted_def match_chunk_def Let_def)


lemma markdown_loop_counted:
  "c \<in> set (markdown_loop doc_id md lines current_chunk current_header idx) \<Longrightarrow> counted c"
proof (induction lines arbitrary: current_chunk current_header idx)
  case Nil
  then show ?case
    by (simp add: counted_def markdown_chunk_def Let_def split: if_splits)
next
  case (Cons line lines)
  from Cons.prems have
    "c = markdown_chunk doc_id md current_chunk current_header idx \<or>
     (\<exists>cc ch i. c \<in> set (markdown_loop doc_id md lines cc ch i))"
    by (auto split: if_splits)
  then show ?case
  proof
    assume "c = markdown_chunk doc_id md current_chunk current_header idx"
    then show ?thesis by (simp add: counted_def markdown_chunk_def Let_def)
  next
    assume "\<exists>cc ch i. c \<in> set (markdown_loop doc_id md lines cc ch i)"
    then obtain cc ch i where "c \<in> set (markdown_loop doc_id md lines cc ch i)" by blast
    then show ?thesis by (rule Cons.IH)
  qed
qed

lemma chunk_markdown_counted: "c \<in> set (chunk_markdown s doc_id md) \<Longrightarrow> counted c"
  unfolding chunk_markdown_def by (rule markdown_loop_counted)

lemma chunk_generic_code_counted:
  "c \<in> set (chunk_generic_code cfg s doc_id lang md) \<Longrightarrow> counted c"
proof -
  assume a: "c \<in> set (chunk_generic_code cfg s doc_id lang md)"
  obtain ms where
    "chunk_generic_code cfg s doc_id lang md =
       (if matches_loop s doc_id lang md ms 0 = [] then chunk_by_lines cfg s doc_id lang md
        else matches_loop s doc_id lang md ms 0)"
    by (simp add: chunk_generic_code_def Let_def)
  with a have "c \<in> set (chunk_by_lines cfg s doc_id lang md) \<or>
               c \<in> set (matches_loop s doc_id lang md ms 0)"
    by (simp split: if_splits)
  then show ?thesis
    using chunk_by_lines_counted matches_loop_counted by blast
qed

lemma chunk_python_code_counted:
  "chunk_python_code parse cfg s doc_id md = Inr cs \<Longrightarrow> c \<in> set cs \<Longrightarrow> counted c"
proof -
  assume a: "chunk_python_code parse cfg s doc_id md = Inr cs" and b: "c \<in> set cs"
  from a have "cs = chunk_by_lines cfg s doc_id (Some ''python'') md \<or>
               (\<exists>nodes. cs = nodes_loop s doc_id md nodes 0)"
    by (auto simp: chunk_python_code_def Let_def split: ast_result.splits if_splits)
  with b show ?thesis
    using chunk_by_lines_counted nodes_loop_counted by blast
qed

lemma chunk_code_counted:
  "chunk_code parse cfg s doc_id lang md = Inr cs \<Longrightarrow> c \<in> set cs \<Longrightarrow> counted c"
  unfolding chunk_code_def
  using chunk_python_code_counted chunk_generic_code_counted
  by (auto split: if_splits)

subsection \<open>Tokens, windows and the validation pass\<close>

lemma split_ws_tokens:
  "(\<forall>c\<in>set cur. \<not> isspace c) \<Longrightarrow> w \<in> set (split_ws cur s) \<Longrightarrow> is_token w"
proof (induction s arbitrary: cur)
  case Nil
  then show ?case by (auto simp: is_token_def split: if_splits)
next
  case (Cons x s)
  show ?case
  proof (cases "isspace x")
    case True
    with Cons.prems(2) have "(w = cur \<and> cur \<noteq> []) \<or> w \<in> set (split_ws [] s)"
      by (auto split: if_splits)
    then show ?thesis
    proof
      assume "w = cur \<and> cur \<noteq> []"
      with Cons.prems(1) show ?thesis by (simp add: is_token_def)
    next
      assume "w \<in> set (split_ws [] s)"
      then show ?thesis by (rule Cons.IH [rotated]) simp
    qed
  next
    case False
    with Cons.prems(2) have "w \<in> set (split_ws (cur @ [x]) s)" by simp
    moreover from False Cons.prems(1) have "\<forall>c\<in>set (cur @ [x]). \<not> isspace c" by simp
    ultimately show ?thesis by (rule Cons.IH [rotated])
  qed
qed

lemma py_split_tokens:
  assumes "w \<in> set (py_split s)"
  shows "is_token w"
  using assms unfolding py_split_def by (rule split_ws_tokens [rotated]) simp

lemma split_ws_no_space:
  "(\<forall>c\<in>set s. \<not> isspace c) \<Longrightarrow> cur @ s \<noteq> [] \<Longrightarrow> split_ws cur s = [cur @ s]"
  by (induction s arbitrary: cur) simp_all

lemma token_len_token: "is_token w \<Longrightarrow> token_len w = 1"
  by (simp add: is_token_def token_len_def py_split_def split_ws_no_space)

lemma token_len_join_tokens:
  assumes "\<forall>w\<in>set ws. is_token w"
  shows "token_len (py_join '' '' ws) = length ws"
proof -
  have "token_len (py_join [CHR '' ''] ws) = sum_list (map token_len ws)"
    by (rule token_len_join) (rule isspace_blank)
  also have "map token_len ws = map (\<lambda>w. 1) ws"
    using assms by (simp add: token_len_token)
  also have "sum_list (map (\<lambda>w. 1::nat) ws) = length ws"
    by (simp add: sum_list_triv)
  finally show ?thesis .
qed

lemma windows_props:
  "w \<in> set (windows n xs) \<Longrightarrow> w \<noteq> [] \<and> length w \<le> n \<and> set w \<subseteq> set xs"
proof (induction n xs rule: windows.induct)
  case (1 n xs)
  from "1.prems" have mem:
    "w \<in> set (if n = 0 \<or> xs = [] then [] else take n xs # windows n (drop n xs))"
    by (subst (asm) windows.simps)
  show ?case
  proof (cases "n = 0 \<or> xs = []")
    case True
    with mem show ?thesis by simp
  next
    case False
    with mem have "w = take n xs \<or> w \<in> set (windows n (drop n xs))" by simp
    then show ?thesis
    proof
      assume "w = take n xs"
      with False show ?thesis by (auto dest: in_set_takeD)
    next
      assume "w \<in> set (windows n (drop n xs))"
      with "1.IH" False have "w \<noteq> [] \<and> length w \<le> n \<and> set w \<subseteq> set (drop n xs)" by blast
      then show ?thesis by (auto dest: in_set_dropD)
    qed
  qed
qed

lemma sub_chunk_ok:
  assumes "0 < chunk_size cfg" and "w \<in> set (windows (nat (chunk_size cfg)) (py_split (content c)))"
  shows "metadata (sub_chunk c w) ''is_sub_chunk'' = Some (MBool True) \<and>
         counted (sub_chunk c w) \<and>
         1 \<le> token_count (sub_chunk c w) \<and> int (token_count (sub_chunk c w)) \<le> chunk_size cfg"
proof -
  from windows_props [OF assms(2)]
  have ne: "w \<noteq> []" and le: "length w \<le> nat (chunk_size cfg)"
    and sub: "set w \<subseteq> set (py_split (content c))" by simp_all
  from sub have "\<forall>t\<in>set w. is_token t" by (auto dest: py_split_tokens)
  then have tl: "token_len (py_join '' '' w) = length w" by (rule token_len_join_tokens)
  from ne have "1 \<le> length w" by (cases w) simp_all
  with le assms(1) tl show ?thesis
    by (simp add: sub_chunk_def Let_def counted_def)
qed

lemma split_large_chunk_ok:
  assumes "split_large_chunk cfg c = Inr subs" and "s \<in> set subs"
  shows "metadata s ''is_sub_chunk'' = Some (MBool True) \<and> counted s \<and>
         1 \<le> token_count s \<and> int (token_count s) \<le> chunk_size cfg"
proof -
  from assms have pos: "0 < chunk_size cfg"
    by (auto simp: split_large_chunk_def Let_def split: if_splits)
  with assms(1) have "subs = map (sub_chunk c) (windows (nat (chunk_size cfg)) (py_split (content c)))"
    by (simp add: split_large_chunk_def Let_def)
  with assms(2) obtain w where "w \<in> set (windows (nat (chunk_size cfg)) (py_split (content c)))"
    and "s = sub_chunk c w" by auto
  with pos show ?thesis using sub_chunk_ok by blast
qed

lemma validate_chunks_ok:
  "validate_chunks cfg cs = Inr vs \<Longrightarrow> v \<in> set vs \<Longrightarrow>
     (v \<in> set cs \<and> min_chunk_size cfg \<le> int (token_len (content v)) \<and>
        int (token_len (content v)) \<le> max_chunk_size cfg) \<or>
     (metadata v ''is_sub_chunk'' = Some (MBool True) \<and> counted v \<and>
        1 \<le> token_count v \<and> int (token_count v) \<le> chunk_size cfg)"
proof (induction cs arbitrary: vs)
  case Nil
  then show ?case by simp
next
  case (Cons c cs)
  let ?n = "int (token_len (content c))"
  show ?case
  proof (cases "?n < min_chunk_size cfg")
    case True
    with Cons.prems(1) have "validate_chunks cfg cs = Inr vs" by simp
    from Cons.IH [OF this Cons.prems(2)] show ?thesis by auto
  next
    case notsmall: False
    show ?thesis
    proof (cases "max_chunk_size cfg < ?n")
      case True
      with notsmall Cons.prems(1) obtain subs rest where
        s: "split_large_chunk cfg c = Inr subs" and r: "validate_chunks cfg cs = Inr rest"
        and vs: "vs = subs @ rest"
        by (auto split: sum.splits)
      from vs Cons.prems(2) have "v \<in> set subs \<or> v \<in> set rest" by simp
      then show ?thesis
      proof
        assume "v \<in> set subs"
        with s show ?thesis using split_large_chunk_ok by blast
      next
        assume "v \<in> set rest"
        from Cons.IH [OF r this] show ?thesis by auto
      qed
    next
      case False
      with notsmall Cons.prems(1) obtain rest where
        r: "validate_chunks cfg cs = Inr rest" and vs: "vs = c # rest"
        by (auto split: sum.splits)
      from vs Cons.prems(2) have "v = c \<or> v \<in> set rest" by simp
      then show ?thesis
      proof
        assume "v = c"
        with notsmall False show ?thesis by simp
      next
        assume "v \<in> set rest"
        from Cons.IH [OF r this] show ?thesis by auto
      qed
    qed
  qed
qed

subsection \<open>The sizes of the returned chunks\<close>

lemma process_chunks:
  assumes "c \<in> set (result_chunks (process parse cfg inp))"
  shows "\<exists>cs vs. (\<forall>x\<in>set cs. counted x) \<and> validate_chunks cfg cs = Inr vs \<and> c \<in> set vs"
proof -
  let ?s = "in_content inp"
  let ?d = "in_document_id inp"
  let ?md = "in_metadata inp"
  let ?ct = "detect_content_type ?s (in_source_type inp)"
  let ?lang = "if language_detection cfg then detect_language ?s ?ct else None"
  let ?strategy =
    "if ?ct = ''code'' then chunk_code parse cfg ?s ?d ?lang ?md
     else if ?ct = ''markdown'' then Inr (chunk_markdown ?s ?d ?md)
     else if ?ct = ''text'' then Inr (chunk_text cfg ?s ?d ?md)
     else chunk_hybrid parse cfg ?s ?d ?ct ?lang ?md"
  have ne: "?s \<noteq> []"
    using assms by (auto simp: process_def result_chunks_def failure_def Let_def)
  obtain cs where cs: "?strategy = Inr cs"
    using assms ne
    by (cases ?strategy) (simp_all add: process_def result_chunks_def failure_def Let_def)
  obtain vs where vs: "validate_chunks cfg cs = Inr vs"
    using assms ne cs
    by (cases "validate_chunks cfg cs") (simp_all add: process_def result_chunks_def failure_def Let_def)
  have mem: "c \<in> set vs"
    using assms ne cs vs by (simp add: process_def result_chunks_def Let_def)
  have "counted x" if "x \<in> set cs" for x
    using cs that
    by (auto simp: chunk_hybrid_def split: if_splits
        dest: chunk_code_counted chunk_markdown_counted chunk_text_counted)
  with vs mem show ?thesis by blast
qed

text \<open>
  C1 (as amended). Every chunk returned by \<open>process\<close>, for every parser result, every
  configuration and every input, has a \<open>token_count\<close> equal to the number of
  whitespace-separated tokens of its content, and either lies within the bounds,
  \<open>min_chunk_size \<le> token_count \<le> max_chunk_size\<close>, or is a word-window sub-chunk
  (\<open>is_sub_chunk\<close> set) with \<open>1 \<le> token_count \<le> chunk_size\<close>. The sub-chunks that
  replace a chunk over the upper bound are not checked against either bound.
\<close>

theorem validated_chunk_sizes:
  "\<forall>c\<in>set (result_chunks (process parse cfg inp)).
     token_count c = token_len (content c) \<and>
     ((min_chunk_size cfg \<le> int (token_count c) \<and> int (token_count c) \<le> max_chunk_size cfg) \<or>
      (metadata c ''is_sub_chunk'' = Some (MBool True) \<and>
       1 \<le> token_count c \<and> int (token_count c) \<le> chunk_size cfg))"
proof
  fix c
  assume "c \<in> set (result_chunks (process parse cfg inp))"
  then obtain cs vs where counted: "\<forall>x\<in>set cs. counted x"
    and v: "validate_chunks cfg cs = Inr vs" and mem: "c \<in> set vs"
    using process_chunks by blast
  from validate_chunks_ok [OF v mem] counted
  show "token_count c = token_len (content c) \<and>
     ((min_chunk_size cfg \<le> int (token_count c) \<and> int (token_count c) \<le> max_chunk_size cfg) \<or>
      (metadata c ''is_sub_chunk'' = Some (MBool True) \<and>
       1 \<le> token_count c \<and> int (token_count c) \<le> chunk_size cfg))"
    by (auto simp: counted_def)
qed

text \<open>
  The claim as stated fails: with \<open>chunk_size = 2\<close>, \<open>min_chunk_size = 2\<close> and
  \<open>max_chunk_size = 4\<close>, the five-word text is split into windows of 2, 2 and 1 words,
  and the last one is returned below the lower bound.
\<close>

theorem validated_chunk_sizes_counterexample:
  "success (process (\<lambda>s. SyntaxError)
      \<lparr>chunk_size = 2, chunk_overlap = 0, chunking_strategy = ''hybrid'',
       min_chunk_size = 2, max_chunk_size = 4, language_detection = True\<rparr>
      \<lparr>in_document_id = ''doc'', in_content = ''a b c d e'', in_source_type = ''text'',
       in_metadata = Map.empty\<rparr>) \<and>
   map (\<lambda>c. (content c, token_count c))
     (result_chunks (process (\<lambda>s. SyntaxError)
      \<lparr>chunk_size = 2, chunk_overlap = 0, chunking_strategy = ''hybrid'',
       min_chunk_size = 2, max_chunk_size = 4, language_detection = True\<rparr>
      \<lparr>in_document_id = ''doc'', in_content = ''a b c d e'', in_source_type = ''text'',
       in_metadata = Map.empty\<rparr>)) = [(''a b'', 2), (''c d'', 2), (''e'', 1)]"
  by code_simp

theorem validated_chunk_sizes_witness:
  "map (\<lambda>c. (content c, token_count c, metadata c ''is_sub_chunk''))
     (result_chunks (process (\<lambda>s. SyntaxError) small_config two_paragraphs)) =
     [(''a b'', 2, Some (MBool True)), (''c d'', 2, Some (MBool True)),
      (''e'', 1, Some (MBool True)), (''f g'', 2, None)] \<and>
   token_count (result_chunks (process (\<lambda>s. SyntaxError) small_config two_paragraphs) ! 2) =
     token_len (content (result_chunks (process (\<lambda>s. SyntaxError) small_config two_paragraphs) ! 2)) \<and>
   ((1 \<le> int (token_count (result_chunks (process (\<lambda>s. SyntaxError) small_config two_paragraphs) ! 2)) \<and>
     int (token_count (result_chunks (process (\<lambda>s. SyntaxError) small_config two_paragraphs) ! 2)) \<le> 3) \<or>
    (metadata (result_chunks (process (\<lambda>s. SyntaxError) small_config two_paragraphs) ! 2)
        ''is_sub_chunk'' = Some (MBool True) \<and>
     1 \<le> token_count (result_chunks (process (\<lambda>s. SyntaxError) small_config two_paragraphs) ! 2) \<and>
     int (token_count (result_chunks (process (\<lambda>s. SyntaxError) small_config two_paragraphs) ! 2)) \<le> 2))"
proof -
  let ?rc = "result_chunks (process (\<lambda>s. SyntaxError) small_config two_paragraphs)"
  have a: "map (\<lambda>c. (content c, token_count c, metadata c ''is_sub_chunk'')) ?rc =
     [(''a b'', 2, Some (MBool True)), (''c d'', 2, Some (MBool True)),
      (''e'', 1, Some (MBool True)), (''f g'', 2, None)]"
    by code_simp
  have "length (map (\<lambda>c. (content c, token_count c, metadata c ''is_sub_chunk'')) ?rc) = 4"
    by (simp only: a) simp
  then have "2 < length ?rc" by simp
  then have mem: "?rc ! 2 \<in> set ?rc" by (rule nth_mem)
  have b: "token_count (?rc ! 2) = token_len (content (?rc ! 2)) \<and>
     ((min_chunk_size small_config \<le> int (token_count (?rc ! 2)) \<and>
       int (token_count (?rc ! 2)) \<le> max_chunk_size small_config) \<or>
      (metadata (?rc ! 2) ''is_sub_chunk'' = Some (MBool True) \<and>
       1 \<le> token_count (?rc ! 2) \<and> int (token_count (?rc ! 2)) \<le> chunk_size small_config))"
    using validated_chunk_sizes [of "\<lambda>s. SyntaxError" small_config two_paragraphs] mem
    by (rule bspec)
  have c: "min_chunk_size small_config = 1" "max_chunk_size small_config = 3"
    "chunk_size small_config = 2"
    by (simp_all add: small_config_def)
  from a b [unfolded c] show ?thesis by (rule conjI)
qed

end
